theory Spec2Isabelle
  imports Main
begin

section \<open>Attribute values and attribute bags\<close>

text \<open>
  The attribute bag of an event is a JavaScript object with scalar fields. Numbers are
  integers here (milliseconds, bitrates, quartile numbers); a field that was never
  assigned is absent from the map, a field assigned \<open>undefined\<close> holds
  \<open>JUndefined\<close>.
\<close>

datatype jsval = JUndefined | JNull | JBool bool | JNum int | JStr string

type_synonym bag = "string \<rightharpoonup> jsval"

text \<open>Reading a property: a missing key reads as \<open>undefined\<close>.\<close>

definition att_get :: "bag \<Rightarrow> string \<Rightarrow> jsval" where
  "att_get b k = (case b k of None \<Rightarrow> JUndefined | Some v \<Rightarrow> v)"

text \<open>ToBoolean: what \<open>if (x)\<close> and \<open>!x\<close> look at.\<close>

fun truthy :: "jsval \<Rightarrow> bool" where
  "truthy JUndefined = False"
| "truthy JNull = False"
| "truthy (JBool b) = b"
| "truthy (JNum n) = (n \<noteq> 0)"
| "truthy (JStr s) = (s \<noteq> [])"

text \<open>\<open>x == undefined\<close> and \<open>x != null\<close>: loose equality with a nullish value.\<close>

fun nullish :: "jsval \<Rightarrow> bool" where
  "nullish JUndefined = True"
| "nullish JNull = True"
| "nullish _ = False"

text \<open>
  ToNumber, with \<open>None\<close> for NaN. A string is trimmed of white space and read as an
  optional sign and decimal digits; the empty string is 0. There are no fractional
  numbers in the model, so a string with a fraction, an exponent or a radix prefix is
  NaN here.
\<close>

definition digit_val :: "char \<Rightarrow> nat option" where
  "digit_val c =
     (let k = (of_char c :: nat) in if 48 \<le> k \<and> k \<le> 57 then Some (k - 48) else None)"

fun digits_val :: "nat \<Rightarrow> string \<Rightarrow> nat option" where
  "digits_val acc [] = Some acc"
| "digits_val acc (c # cs) =
     (case digit_val c of None \<Rightarrow> None | Some d \<Rightarrow> digits_val (10 * acc + d) cs)"

definition is_space :: "char \<Rightarrow> bool" where
  "is_space c = ((of_char c :: nat) \<in> {9, 10, 11, 12, 13, 32})"

definition trim :: "string \<Rightarrow> string" where
  "trim s = rev (dropWhile is_space (rev (dropWhile is_space s)))"

definition str_to_number :: "string \<Rightarrow> int option" where
  "str_to_number s =
     (case trim s of
        [] \<Rightarrow> Some 0
      | c # cs \<Rightarrow>
          if c = CHR ''-'' then
            (if cs = [] then None else map_option (\<lambda>n. - int n) (digits_val 0 cs))
          else if c = CHR ''+'' then
            (if cs = [] then None else map_option int (digits_val 0 cs))
          else map_option int (digits_val 0 (c # cs)))"

fun to_number :: "jsval \<Rightarrow> int option" where
  "to_number JUndefined = None"
| "to_number JNull = Some 0"
| "to_number (JBool b) = Some (if b then 1 else 0)"
| "to_number (JNum n) = Some n"
| "to_number (JStr s) = str_to_number s"

text \<open>\<open>x < n\<close> for a number literal \<open>n\<close>: false when the left side is NaN.\<close>

definition js_lt_num :: "jsval \<Rightarrow> int \<Rightarrow> bool" where
  "js_lt_num v n = (case to_number v of None \<Rightarrow> False | Some m \<Rightarrow> m < n)"

text \<open>\<open>att = att || {}\<close>: a call without an attribute object starts from the empty bag.\<close>

definition att_or_empty :: "bag option \<Rightarrow> bag" where
  "att_or_empty att = (case att of None \<Rightarrow> Map.empty | Some b \<Rightarrow> b)"


section \<open>Chrono\<close>

text \<open>
  Modelled from the spec: the class Chrono (src/chrono.js is not among the source files).
  Section 4.1: \<open>mark()\<close> resets the reference instant to now; \<open>elapsed()\<close> returns the
  milliseconds since the last mark, or since construction if never marked. The video
  tracker reads it under the name \<open>getDeltaTime()\<close>. The clock is the field \<open>now\<close> of
  the world below; it only moves forward.
\<close>

record Chrono =
  ref :: int

text \<open>
  Modelled from the spec: the constructor of Chrono (section 4.1): the reference instant
  is the instant of construction.
\<close>

definition Chrono_new :: "int \<Rightarrow> Chrono" where
  "Chrono_new t = \<lparr>ref = t\<rparr>"

text \<open>
  Modelled from the spec: \<open>mark()\<close> of Chrono (section 4.1): it resets the
  reference instant to now.
\<close>

definition mark :: "int \<Rightarrow> Chrono \<Rightarrow> Chrono" where
  "mark t c = c\<lparr>ref := t\<rparr>"

text \<open>
  Modelled from the spec: \<open>elapsed()\<close> of Chrono (section 4.1), which the
  source calls \<open>getDeltaTime()\<close>: the milliseconds since the reference
  instant.
\<close>

definition getDeltaTime :: "int \<Rightarrow> Chrono \<Rightarrow> int" where
  "getDeltaTime t c = t - ref c"


section \<open>TrackerState\<close>

text \<open>
  Modelled from the spec: the class TrackerState (src/videotrackerstate.js is not among
  the source files). Section 4.2 gives the phases
  \<open>IDLE \<rightarrow> READY \<rightarrow> REQUESTED \<rightarrow> STARTED \<rightleftharpoons> {PLAYING, PAUSED, BUFFERING, SEEKING} \<rightarrow> ENDED\<close>,
  one guarded transition \<open>go*\<close> per lifecycle operation, and the recorded instants of
  section 3 (one Chrono per milestone). The fields \<open>isPlaying\<close>, \<open>isStarted\<close>,
  \<open>initialBufferingHappened\<close>, \<open>totalPlaytime\<close> and \<open>totalAdPlaytime\<close> are the ones
  the video tracker reads and assigns directly.
\<close>

text \<open>
  Modelled from the spec: the playback phases of section 4.2 (TrackerState is not among
  the source files).
\<close>

datatype Phase = IDLE | READY | REQUESTED | STARTED | PLAYING | PAUSED | BUFFERING | SEEKING | ENDED

text \<open>
  Modelled from the spec: the milestones of section 3 for which TrackerState records an
  instant.
\<close>

datatype Milestone =
    MRequested | MStarted | MPaused | MResumed | MBufferBegin | MSeekBegin | MSeekEnd
  | MLastRenditionChange | MAdBreakStart | MLastAdQuartile | MLastHeartbeat | MLastAd

text \<open>
  Modelled from the spec: the fields of TrackerState (section 3 and 4.2): the phase, the
  phase to come back to after buffering and after seeking, the role flag, the ad break
  flag, the accumulators, the view identity and one Chrono per milestone, with the fields
  the source reads and assigns.
\<close>

record TrackerState =
  phase :: Phase
  phaseBeforeBuffer :: Phase
  phaseBeforeSeek :: Phase
  isAdFlag :: bool
  isAdBreak :: bool
  isPlaying :: bool
  isStarted :: bool
  initialBufferingHappened :: bool
  totalPlaytime :: int
  totalAdPlaytime :: int
  viewSession :: string
  viewCount :: nat
  chrono :: "Milestone \<Rightarrow> Chrono"

text \<open>
  Modelled from the spec: \<open>new TrackerState()\<close>. The session id is generated once (section
  3); it is random in the program and an input here. Every Chrono starts at construction.
\<close>

definition TrackerState_new :: "string \<Rightarrow> int \<Rightarrow> TrackerState" where
  "TrackerState_new session t =
     \<lparr>phase = IDLE, phaseBeforeBuffer = IDLE, phaseBeforeSeek = IDLE, isAdFlag = False,
      isAdBreak = False, isPlaying = False, isStarted = False,
      initialBufferingHappened = False, totalPlaytime = 0, totalAdPlaytime = 0,
      viewSession = session, viewCount = 0, chrono = (\<lambda>m. Chrono_new t)\<rparr>"

text \<open>The Chrono fields the video tracker reads, under their names in the source.\<close>

text \<open>
  Modelled from the spec: the Chrono \<open>state.timeSinceRequested\<close> of
  TrackerState (section 3, milestone request).
\<close>

definition timeSinceRequested :: "TrackerState \<Rightarrow> Chrono" where
  "timeSinceRequested s = chrono s MRequested"

text \<open>
  Modelled from the spec: the Chrono \<open>state.timeSinceStarted\<close> of TrackerState
  (section 3, milestone start).
\<close>

definition timeSinceStarted :: "TrackerState \<Rightarrow> Chrono" where
  "timeSinceStarted s = chrono s MStarted"

text \<open>
  Modelled from the spec: the Chrono \<open>state.timeSincePaused\<close> of TrackerState
  (section 3, milestone pause).
\<close>

definition timeSincePaused :: "TrackerState \<Rightarrow> Chrono" where
  "timeSincePaused s = chrono s MPaused"

text \<open>
  Modelled from the spec: the Chrono \<open>state.timeSinceResumed\<close> of
  TrackerState, marked by \<open>goResume\<close>.
\<close>

definition timeSinceResumed :: "TrackerState \<Rightarrow> Chrono" where
  "timeSinceResumed s = chrono s MResumed"

text \<open>
  Modelled from the spec: the Chrono \<open>state.timeSinceBufferBegin\<close> of
  TrackerState (section 3, milestone buffer-begin).
\<close>

definition timeSinceBufferBegin :: "TrackerState \<Rightarrow> Chrono" where
  "timeSinceBufferBegin s = chrono s MBufferBegin"

text \<open>
  Modelled from the spec: the Chrono \<open>state.timeSinceSeekBegin\<close> of
  TrackerState (section 3, milestone seek-begin).
\<close>

definition timeSinceSeekBegin :: "TrackerState \<Rightarrow> Chrono" where
  "timeSinceSeekBegin s = chrono s MSeekBegin"

text \<open>
  Modelled from the spec: the Chrono \<open>state.timeSinceSeekEnd\<close> of
  TrackerState, marked by \<open>goSeekEnd\<close>.
\<close>

definition timeSinceSeekEnd :: "TrackerState \<Rightarrow> Chrono" where
  "timeSinceSeekEnd s = chrono s MSeekEnd"

text \<open>
  Modelled from the spec: the Chrono \<open>state.timeSinceLastRenditionChange\<close> of
  TrackerState (section 3, milestone rendition-change).
\<close>

definition timeSinceLastRenditionChange :: "TrackerState \<Rightarrow> Chrono" where
  "timeSinceLastRenditionChange s = chrono s MLastRenditionChange"

text \<open>
  Modelled from the spec: the Chrono \<open>state.timeSinceAdBreakStart\<close> of
  TrackerState (section 3, milestone ad-break-start).
\<close>

definition timeSinceAdBreakStart :: "TrackerState \<Rightarrow> Chrono" where
  "timeSinceAdBreakStart s = chrono s MAdBreakStart"

text \<open>
  Modelled from the spec: the Chrono \<open>state.timeSinceLastAdQuartile\<close> of
  TrackerState (section 3, milestone ad-quartile).
\<close>

definition timeSinceLastAdQuartile :: "TrackerState \<Rightarrow> Chrono" where
  "timeSinceLastAdQuartile s = chrono s MLastAdQuartile"

text \<open>Marking a milestone at the instant \<open>t\<close>.\<close>

text \<open>
  Modelled from the spec: marking the Chrono of a milestone of TrackerState at the instant
  \<open>t\<close> (section 3: overwritten each time the milestone recurs).
\<close>

definition mark_at :: "Milestone \<Rightarrow> int \<Rightarrow> TrackerState \<Rightarrow> TrackerState" where
  "mark_at m t s = s\<lparr>chrono := (chrono s)(m := mark t (chrono s m))\<rparr>"

text \<open>
  Modelled from the spec: \<open>state.isAd()\<close> and \<open>state.setIsAd(isAd)\<close>, the role flag of
  section 4.4.
\<close>

definition state_isAd :: "TrackerState \<Rightarrow> bool" where
  "state_isAd s = isAdFlag s"

text \<open>
  Modelled from the spec: \<open>state.setIsAd(isAd)\<close> of TrackerState: it assigns
  the role flag.
\<close>

definition state_setIsAd :: "bool \<Rightarrow> TrackerState \<Rightarrow> TrackerState" where
  "state_setIsAd b s = s\<lparr>isAdFlag := b\<rparr>"


text \<open>
  Modelled from the spec: \<open>state.getViewId()\<close> of TrackerState (section 3 and
  4.2): opaque, new with every \<open>goViewCountUp\<close>; here the pair of the session
  id and the view counter.
\<close>

definition state_getViewId :: "TrackerState \<Rightarrow> string \<times> nat" where
  "state_getViewId s = (viewSession s, viewCount s)"

text \<open>
  Modelled from the spec: \<open>goViewCountUp()\<close> of TrackerState (section 4.2): it
  issues the next view id.
\<close>

definition goViewCountUp :: "TrackerState \<Rightarrow> TrackerState" where
  "goViewCountUp s = s\<lparr>viewCount := Suc (viewCount s)\<rparr>"

text \<open>
  Modelled from the spec: the predicate \<open>isRequested\<close> of section 4.2, "the current phase
  has passed REQUESTED": a view is active, from its request to its end.
\<close>

definition isRequested :: "TrackerState \<Rightarrow> bool" where
  "isRequested s = (phase s \<in> {REQUESTED, STARTED, PLAYING, PAUSED, BUFFERING, SEEKING})"

text \<open>
  Modelled from the spec: the guarded transitions of section 4.2. Each returns whether the
  transition was accepted and the state after it; a rejected transition leaves the state
  as it was. The argument \<open>t\<close> is the clock reading.

  \<open>goPlayerReady\<close>: the first arrow of the chain, IDLE to READY.
\<close>

definition goPlayerReady :: "TrackerState \<Rightarrow> bool \<times> TrackerState" where
  "goPlayerReady s = (if phase s = IDLE then (True, s\<lparr>phase := READY\<rparr>) else (False, s))"

text \<open>
  Modelled from the spec: "goRequest(): valid from READY/IDLE/ENDED; issues a new view id,
  marks timeSinceRequested, moves to REQUESTED."
\<close>

definition goRequest :: "int \<Rightarrow> TrackerState \<Rightarrow> bool \<times> TrackerState" where
  "goRequest t s =
     (if phase s \<in> {READY, IDLE, ENDED}
      then (True, (mark_at MRequested t (goViewCountUp s))\<lparr>phase := REQUESTED\<rparr>)
      else (False, s))"

text \<open>
  Modelled from the spec: "goStart(): valid once per view from REQUESTED or
  post-buffer/seek/pause states; marks timeSinceStarted; moves to PLAYING."
\<close>

definition goStart :: "int \<Rightarrow> TrackerState \<Rightarrow> bool \<times> TrackerState" where
  "goStart t s =
     (if \<not> isStarted s \<and> phase s \<in> {REQUESTED, BUFFERING, SEEKING, PAUSED}
      then (True, (mark_at MStarted t s)\<lparr>phase := PLAYING, isStarted := True, isPlaying := True\<rparr>)
      else (False, s))"

text \<open>
  Modelled from the spec: \<open>goPause()\<close> of TrackerState (section 4.2, "goPause() /
  goResume(): toggle PLAYING \<rightleftharpoons> PAUSED"): PLAYING to PAUSED; it marks the instant of the
  pause.
\<close>

definition goPause :: "int \<Rightarrow> TrackerState \<Rightarrow> bool \<times> TrackerState" where
  "goPause t s =
     (if phase s = PLAYING
      then (True, (mark_at MPaused t s)\<lparr>phase := PAUSED, isPlaying := False\<rparr>)
      else (False, s))"

text \<open>
  Modelled from the spec: \<open>goResume()\<close> of TrackerState (section 4.2): PAUSED
  to PLAYING; it marks the instant of the resume, and the pause mark stays readable for
  the delta \<open>sendResume\<close> reports.
\<close>

definition goResume :: "int \<Rightarrow> TrackerState \<Rightarrow> bool \<times> TrackerState" where
  "goResume t s =
     (if phase s = PAUSED
      then (True, (mark_at MResumed t s)\<lparr>phase := PLAYING, isPlaying := True\<rparr>)
      else (False, s))"

text \<open>
  Modelled from the spec: "goBufferStart() / goBufferEnd(): toggle into/out of BUFFERING,
  preserving the phase that was active immediately prior so resume lands correctly; marks
  timeSinceBufferBegin."
\<close>

definition goBufferStart :: "int \<Rightarrow> TrackerState \<Rightarrow> bool \<times> TrackerState" where
  "goBufferStart t s =
     (if isRequested s \<and> phase s \<noteq> BUFFERING
      then (True, (mark_at MBufferBegin t s)\<lparr>phase := BUFFERING, phaseBeforeBuffer := phase s\<rparr>)
      else (False, s))"

text \<open>
  Modelled from the spec: \<open>goBufferEnd()\<close> of TrackerState (section 4.2): out
  of BUFFERING, back to the phase that was active immediately before.
\<close>

definition goBufferEnd :: "TrackerState \<Rightarrow> bool \<times> TrackerState" where
  "goBufferEnd s =
     (if phase s = BUFFERING then (True, s\<lparr>phase := phaseBeforeBuffer s\<rparr>) else (False, s))"

text \<open>
  Modelled from the spec: "goSeekStart() / goSeekEnd(): symmetric to buffering, using
  timeSinceSeekBegin/timeSinceSeekEnd."
\<close>

definition goSeekStart :: "int \<Rightarrow> TrackerState \<Rightarrow> bool \<times> TrackerState" where
  "goSeekStart t s =
     (if isRequested s \<and> phase s \<noteq> SEEKING
      then (True, (mark_at MSeekBegin t s)\<lparr>phase := SEEKING, phaseBeforeSeek := phase s\<rparr>)
      else (False, s))"

text \<open>
  Modelled from the spec: \<open>goSeekEnd()\<close> of TrackerState (section 4.2): out of
  SEEKING, back to the phase that was active immediately before; it marks
  timeSinceSeekEnd.
\<close>

definition goSeekEnd :: "int \<Rightarrow> TrackerState \<Rightarrow> bool \<times> TrackerState" where
  "goSeekEnd t s =
     (if phase s = SEEKING
      then (True, (mark_at MSeekEnd t s)\<lparr>phase := phaseBeforeSeek s\<rparr>)
      else (False, s))"

text \<open>
  Modelled from the spec: "goEnd(): valid from any active sub-state; marks consumed for
  delta attributes, triggers goViewCountUp() (issues the next view id) and zeroes
  totalPlaytime; returns to ENDED." The marks stay readable after it: \<open>sendEnd\<close> reads
  them for its deltas.
\<close>

definition goEnd :: "TrackerState \<Rightarrow> bool \<times> TrackerState" where
  "goEnd s =
     (if isRequested s
      then (True, (goViewCountUp s)\<lparr>phase := ENDED, isStarted := False, isPlaying := False,
                                     totalPlaytime := 0\<rparr>)
      else (False, s))"

text \<open>
  Modelled from the spec: "goAdBreakStart() / goAdBreakEnd(): manage the AD_BREAK
  super-state and the associated accumulator"; "entering it records adBreakStart mark and
  zeroes totalAdPlaytime."
\<close>

definition goAdBreakStart :: "int \<Rightarrow> TrackerState \<Rightarrow> bool \<times> TrackerState" where
  "goAdBreakStart t s =
     (if \<not> isAdBreak s
      then (True, (mark_at MAdBreakStart t s)\<lparr>isAdBreak := True, totalAdPlaytime := 0\<rparr>)
      else (False, s))"

text \<open>
  Modelled from the spec: \<open>goAdBreakEnd()\<close> of TrackerState (section 4.2): it
  leaves the AD_BREAK super-state.
\<close>

definition goAdBreakEnd :: "TrackerState \<Rightarrow> bool \<times> TrackerState" where
  "goAdBreakEnd s = (if isAdBreak s then (True, s\<lparr>isAdBreak := False\<rparr>) else (False, s))"

text \<open>
  Modelled from the spec: the side-channel operations. "goError does not change phase";
  "goDownload/goRenditionChange always succeed"; \<open>goAdQuartile\<close> and \<open>goRenditionChange\<close>
  mark their milestone (section 3).
\<close>

definition goAdQuartile :: "int \<Rightarrow> TrackerState \<Rightarrow> TrackerState" where
  "goAdQuartile t s = mark_at MLastAdQuartile t s"

text \<open>
  Modelled from the spec: \<open>goDownload()\<close> of TrackerState (section 4.2): it
  always succeeds and changes no phase.
\<close>

definition goDownload :: "TrackerState \<Rightarrow> TrackerState" where
  "goDownload s = s"

text \<open>
  Modelled from the spec: \<open>goError()\<close> of TrackerState (section 4.2): it does
  not change the phase.
\<close>

definition goError :: "TrackerState \<Rightarrow> TrackerState" where
  "goError s = s"

text \<open>
  Modelled from the spec: \<open>goRenditionChange()\<close> of TrackerState (section
  4.2): it always succeeds and marks the instant of the rendition change.
\<close>

definition goRenditionChange :: "int \<Rightarrow> TrackerState \<Rightarrow> TrackerState" where
  "goRenditionChange t s = mark_at MLastRenditionChange t s"

text \<open>
  Modelled from the spec: "goHeartbeat(): re-marks the heartbeat reference time; requires
  current phase to have passed REQUESTED; heartbeats before a request are silently
  skipped."
\<close>

definition goHeartbeat :: "int \<Rightarrow> TrackerState \<Rightarrow> TrackerState" where
  "goHeartbeat t s = (if isRequested s then mark_at MLastHeartbeat t s else s)"

text \<open>
  Modelled from the spec: \<open>goLastAd()\<close>, the parent's "last ad" bookkeeping of section
  4.4: the instant of the last ad.
\<close>

definition goLastAd :: "int \<Rightarrow> TrackerState \<Rightarrow> TrackerState" where
  "goLastAd t s = mark_at MLastAd t s"

text \<open>
  Modelled from the spec: "calculateBufferType(isInitialBuffering): returns one of
  {initial, seek, other}: initial if isInitialBuffering is true; seek if a seek-start
  preceded this buffering with no intervening playback; otherwise other." A seek is open
  when the phase is SEEKING, or BUFFERING entered from SEEKING.
\<close>

definition seekOpen :: "TrackerState \<Rightarrow> bool" where
  "seekOpen s = (phase s = SEEKING \<or> (phase s = BUFFERING \<and> phaseBeforeBuffer s = SEEKING))"

text \<open>
  Modelled from the spec: \<open>calculateBufferType(isInitialBuffering)\<close> of
  TrackerState (section 4.2): initial, seek or other, in this order of precedence.
\<close>

definition calculateBufferType :: "bool \<Rightarrow> TrackerState \<Rightarrow> string" where
  "calculateBufferType isInitialBuffering s =
     (if isInitialBuffering then ''initial''
      else if seekOpen s then ''seek''
      else ''other'')"


section \<open>Trackers, the store and the sink\<close>

text \<open>
  Trackers refer to each other (\<open>adsTracker\<close>, \<open>parentTracker\<close>) and assign each
  other's state, so they live in a store indexed by tracker references. A listener
  registered with \<open>on('*', funnelAdEvents.bind(parent))\<close> is \<open>FunnelAdEvents (Some parent)\<close>;
  the unbound function \<open>funnelAdEvents\<close> itself is \<open>FunnelAdEvents None\<close>.
\<close>

type_synonym tid = nat

datatype Handler = FunnelAdEvents "tid option"

record VideoTracker =
  state :: TrackerState
  adsTracker :: "tid option"
  parentTracker :: "tid option"
  lastBufferType :: jsval
  lastRendition :: "int option"
  lastAdRendition :: "int option"
  renditionBitrate :: "int option"
  heartbeatRunning :: bool
  listeners :: "Handler list"
  player :: "nat option"
  tag :: "nat option"

type_synonym event = "tid \<times> string \<times> bag option"

record World =
  trackers :: "tid \<Rightarrow> VideoTracker"
  sink :: "event list"
  warnings :: "string list"
  now :: int

text \<open>
  The constructor, called without a player and without options: a fresh state, no ads
  tracker, no parent, \<open>_lastBufferType = null\<close>; \<open>_lastRendition\<close> and
  \<open>_lastAdRendition\<close> are not assigned. \<open>renditionBitrate\<close> is what the overridable
  getter \<open>getRenditionBitrate()\<close> returns; the base class returns null.
\<close>

definition VideoTracker_new :: "string \<Rightarrow> int \<Rightarrow> VideoTracker" where
  "VideoTracker_new session t =
     \<lparr>state = TrackerState_new session t, adsTracker = None, parentTracker = None,
      lastBufferType = JNull, lastRendition = None, lastAdRendition = None,
      renditionBitrate = None, heartbeatRunning = False, listeners = [],
      player = None, tag = None\<rparr>"

definition World_new :: "(tid \<Rightarrow> string) \<Rightarrow> World" where
  "World_new session =
     \<lparr>trackers = (\<lambda>t. VideoTracker_new (session t) 0), sink = [], warnings = [], now = 0\<rparr>"

definition state_of :: "World \<Rightarrow> tid \<Rightarrow> TrackerState" where
  "state_of w t = state (trackers w t)"

definition upd_tracker :: "tid \<Rightarrow> (VideoTracker \<Rightarrow> VideoTracker) \<Rightarrow> World \<Rightarrow> World" where
  "upd_tracker t f w = w\<lparr>trackers := (trackers w)(t := f (trackers w t))\<rparr>"

definition upd_state :: "tid \<Rightarrow> (TrackerState \<Rightarrow> TrackerState) \<Rightarrow> World \<Rightarrow> World" where
  "upd_state t f w = upd_tracker t (\<lambda>v. v\<lparr>state := f (state v)\<rparr>) w"

definition set_state :: "tid \<Rightarrow> TrackerState \<Rightarrow> World \<Rightarrow> World" where
  "set_state t s w = upd_state t (\<lambda>_. s) w"

text \<open>Time passing between two calls: the clock only moves forward.\<close>

definition tick :: "nat \<Rightarrow> World \<Rightarrow> World" where
  "tick d w = w\<lparr>now := now w + int d\<rparr>"

text \<open>
  Modelled from the spec: \<open>Log.warn(message)\<close> of the logger (src/log.js is not among
  the source files), section 6: the message is recorded, nothing else happens.
\<close>

definition Log_warn :: "string \<Rightarrow> World \<Rightarrow> World" where
  "Log_warn msg w = w\<lparr>warnings := warnings w @ [msg]\<rparr>"

text \<open>
  Modelled from the spec: \<open>startHeartbeat()\<close> and \<open>stopHeartbeat()\<close> of the base class
  Tracker (src/tracker.js is not among the source files), section 4.3: the first begins the
  recurring timer, the second cancels it and is idempotent.
\<close>

definition startHeartbeat :: "tid \<Rightarrow> World \<Rightarrow> World" where
  "startHeartbeat t w = upd_tracker t (\<lambda>v. v\<lparr>heartbeatRunning := True\<rparr>) w"

text \<open>
  Modelled from the spec: \<open>stopHeartbeat()\<close> of the base class Tracker
  (section 4.3): it cancels the timer and is idempotent.
\<close>

definition stopHeartbeat :: "tid \<Rightarrow> World \<Rightarrow> World" where
  "stopHeartbeat t w = upd_tracker t (\<lambda>v. v\<lparr>heartbeatRunning := False\<rparr>) w"

text \<open>
  Modelled from the spec: the sink of section 6,
  \<open>deliver(trackerRef, eventName, attributeBag)\<close>: the delivery is appended to the log.
\<close>

definition deliver :: "tid \<Rightarrow> string \<Rightarrow> bag option \<Rightarrow> World \<Rightarrow> World" where
  "deliver t ev att w = w\<lparr>sink := sink w @ [(t, ev, att)]\<rparr>"

text \<open>
  Modelled from the spec: \<open>Tracker.send(eventName, attributes)\<close> of the base class and the
  event bus under it (src/tracker.js and src/emitter.js are not among the source files).
  Section 4.4, step 4: the event is delivered to the sink with its name and attributes;
  then every listener subscribed to all events is called with the event
  (\<open>e.type\<close>, \<open>e.data\<close>). The listener \<open>funnelAdEvents\<close> is the source's (the last
  function of videotracker.js): \<open>this.send(e.type, e.data)\<close> on the tracker it is bound
  to; unbound, \<open>this\<close> is undefined and the call throws. What is delivered is the bag
  the operation passes to \<open>send\<close>: no operation of the source calls the attribute
  assembly \<open>getAttributes\<close> (step 3 of section 4.4), and it is not part of this model.

  A chain of listeners that leads back to its own tracker never ends; the first argument
  bounds the depth of the calls, and \<open>None\<close> is the exception the program ends with
  (also the stack overflow of an endless chain).
\<close>

fun send :: "nat \<Rightarrow> tid \<Rightarrow> string \<Rightarrow> bag option \<Rightarrow> World \<Rightarrow> World option"
  and emit :: "nat \<Rightarrow> Handler list \<Rightarrow> string \<Rightarrow> bag option \<Rightarrow> World \<Rightarrow> World option"
  and funnelAdEvents :: "nat \<Rightarrow> tid option \<Rightarrow> string \<Rightarrow> bag option \<Rightarrow> World \<Rightarrow> World option"
where
  "send 0 t ev att w = None"
| "send (Suc n) t ev att w = emit n (listeners (trackers w t)) ev att (deliver t ev att w)"
| "emit n [] ev att w = Some w"
| "emit n (FunnelAdEvents this # hs) ev att w =
     (case funnelAdEvents n this ev att w of
        None \<Rightarrow> None
      | Some w' \<Rightarrow> emit n hs ev att w')"
| "funnelAdEvents n None e_type e_data w = None"
| "funnelAdEvents n (Some this) e_type e_data w = send n this e_type e_data w"

text \<open>
  Modelled from the spec: \<open>on('*', handler)\<close> and \<open>off('*', handler)\<close> of the event bus
  (src/emitter.js is not among the source files): the first subscribes the handler to all
  events, the second removes the handler it is given.
\<close>

definition on_all :: "tid \<Rightarrow> Handler \<Rightarrow> World \<Rightarrow> World" where
  "on_all t h w = upd_tracker t (\<lambda>v. v\<lparr>listeners := listeners v @ [h]\<rparr>) w"

text \<open>
  Modelled from the spec: \<open>off('*', handler)\<close> of the event bus
  (src/emitter.js is not among the source files): it removes the handler it is given from
  the listeners for all events.
\<close>

definition off_all :: "tid \<Rightarrow> Handler \<Rightarrow> World \<Rightarrow> World" where
  "off_all t h w = upd_tracker t (\<lambda>v. v\<lparr>listeners := filter (\<lambda>x. x \<noteq> h) (listeners v)\<rparr>) w"


section \<open>VideoTracker\<close>

text \<open>
  The methods of the class VideoTracker of src/videotracker.js, in the order of the
  source. A method that changes something takes the world and returns the world after it;
  one that can end in an exception returns an option. \<open>this\<close> is the reference \<open>t\<close>.
\<close>

definition isAd :: "World \<Rightarrow> tid \<Rightarrow> bool" where
  "isAd w t = state_isAd (state_of w t)"

definition setIsAd :: "tid \<Rightarrow> bool \<Rightarrow> World \<Rightarrow> World" where
  "setIsAd t b w = upd_state t (state_setIsAd b) w"

text \<open>
  \<open>dispose\<close> and \<open>disposeAdsTracker\<close> call each other down the chain of ads trackers;
  the first argument bounds the depth, as for \<open>send\<close>. \<open>unregisterListeners\<close> does
  nothing in this class.
\<close>

fun dispose :: "nat \<Rightarrow> tid \<Rightarrow> World \<Rightarrow> World option"
  and disposeAdsTracker :: "nat \<Rightarrow> tid \<Rightarrow> World \<Rightarrow> World option"
where
  "dispose 0 t w = None"
| "dispose (Suc n) t w =
     (case disposeAdsTracker n t (stopHeartbeat t w) of
        None \<Rightarrow> None
      | Some w1 \<Rightarrow> Some (upd_tracker t (\<lambda>v. v\<lparr>player := None, tag := None\<rparr>) w1))"
| "disposeAdsTracker n t w =
     (case adsTracker (trackers w t) of
        None \<Rightarrow> Some w
      | Some a \<Rightarrow> dispose n a (off_all a (FunnelAdEvents None) w))"

definition setAdsTracker :: "nat \<Rightarrow> tid \<Rightarrow> tid option \<Rightarrow> World \<Rightarrow> World option" where
  "setAdsTracker n t tracker w =
     (case disposeAdsTracker n t w of
        None \<Rightarrow> None
      | Some w1 \<Rightarrow>
          (case tracker of
             None \<Rightarrow> Some w1
           | Some a \<Rightarrow>
               (let w2 = upd_tracker t (\<lambda>v. v\<lparr>adsTracker := Some a\<rparr>) w1;
                    w3 = setIsAd a True w2;
                    w4 = upd_tracker a (\<lambda>v. v\<lparr>parentTracker := Some t\<rparr>) w3
                in Some (on_all a (FunnelAdEvents (Some t)) w4))))"



text \<open>
  \<open>getRenditionBitrate\<close> is overridden by the player binding; the model reads the
  value the binding currently returns. \<open>getRenditionShift\<close> returns \<open>'up'\<close>,
  \<open>'down'\<close> or null, and the world with the baseline it may have saved.
\<close>

definition getRenditionBitrate :: "World \<Rightarrow> tid \<Rightarrow> int option" where
  "getRenditionBitrate w t = renditionBitrate (trackers w t)"

text \<open>\<open>!x\<close> for a bitrate: null, undefined and 0 are falsy.\<close>

definition falsy_num :: "int option \<Rightarrow> bool" where
  "falsy_num x = (case x of None \<Rightarrow> True | Some n \<Rightarrow> n = 0)"

definition getRenditionShift :: "bool \<Rightarrow> tid \<Rightarrow> World \<Rightarrow> jsval \<times> World" where
  "getRenditionShift saveNewRendition t w =
     (let current = getRenditionBitrate w t;
          (last, w1) =
            (if isAd w t
             then (lastAdRendition (trackers w t),
                   if saveNewRendition
                   then upd_tracker t (\<lambda>v. v\<lparr>lastAdRendition := current\<rparr>) w else w)
             else (lastRendition (trackers w t),
                   if saveNewRendition
                   then upd_tracker t (\<lambda>v. v\<lparr>lastRendition := current\<rparr>) w else w))
      in if falsy_num current \<or> falsy_num last then (JNull, w1)
         else if the current > the last then (JStr ''up'', w1)
         else if the current < the last then (JStr ''down'', w1)
         else (JNull, w1))"

subsection \<open>The send operations\<close>

definition sendPlayerReady :: "nat \<Rightarrow> tid \<Rightarrow> bag option \<Rightarrow> World \<Rightarrow> World option" where
  "sendPlayerReady n t att w =
     (let (ok, s1) = goPlayerReady (state_of w t); w1 = set_state t s1 w
      in if ok then send n t ''PLAYER_READY'' (Some (att_or_empty att)) w1 else Some w1)"

definition sendRequest :: "nat \<Rightarrow> tid \<Rightarrow> bag option \<Rightarrow> World \<Rightarrow> World option" where
  "sendRequest n t att w =
     (let (ok, s1) = goRequest (now w) (state_of w t); w1 = set_state t s1 w
      in if ok then
           (let ev = (if isAd w1 t then ''AD_REQUEST'' else ''CONTENT_REQUEST'')
            in case send n t ev att w1 of
                 None \<Rightarrow> None
               | Some w2 \<Rightarrow>
                   (let w3 = startHeartbeat t w2
                    in Some (upd_state t (goHeartbeat (now w3)) w3)))
         else Some w1)"

definition sendStart :: "nat \<Rightarrow> tid \<Rightarrow> bag option \<Rightarrow> World \<Rightarrow> World option" where
  "sendStart n t att w =
     (let (ok, s1) = goStart (now w) (state_of w t); w1 = set_state t s1 w
      in if ok then
           (if isAd w1 t then
              (let w2 = (case parentTracker (trackers w1 t) of
                           None \<Rightarrow> w1
                         | Some p \<Rightarrow> upd_state p (\<lambda>s. s\<lparr>isPlaying := False\<rparr>) w1)
               in send n t ''AD_START'' att w2)
            else send n t ''CONTENT_START'' att w1)
         else Some w1)"

definition sendEnd :: "nat \<Rightarrow> tid \<Rightarrow> bag option \<Rightarrow> World \<Rightarrow> World option" where
  "sendEnd n t att w =
     (let (ok, s1) = goEnd (state_of w t); w1 = set_state t s1 w
      in if ok then
           (let att1 = att_or_empty att;
                (ev, att2, w2) =
                  (if isAd w1 t then
                     (''AD_END'',
                      att1(''timeSinceAdRequested'' \<mapsto>
                             JNum (getDeltaTime (now w1) (timeSinceRequested (state_of w1 t))),
                           ''timeSinceAdStarted'' \<mapsto>
                             JNum (getDeltaTime (now w1) (timeSinceStarted (state_of w1 t)))),
                      (case parentTracker (trackers w1 t) of
                         None \<Rightarrow> w1
                       | Some p \<Rightarrow> upd_state p (\<lambda>s. s\<lparr>isPlaying := True\<rparr>) w1))
                   else
                     (''CONTENT_END'',
                      att1(''timeSinceRequested'' \<mapsto>
                             JNum (getDeltaTime (now w1) (timeSinceRequested (state_of w1 t))),
                           ''timeSinceStarted'' \<mapsto>
                             JNum (getDeltaTime (now w1) (timeSinceStarted (state_of w1 t)))),
                      w1));
                w3 = stopHeartbeat t w2
            in case send n t ev (Some att2) w3 of
                 None \<Rightarrow> None
               | Some w4 \<Rightarrow>
                   (let w5 = (case parentTracker (trackers w4 t) of
                                None \<Rightarrow> w4
                              | Some p \<Rightarrow>
                                  if isAd w4 t then upd_state p (goLastAd (now w4)) w4 else w4);
                        w6 = upd_state t goViewCountUp w5
                    in Some (upd_state t (\<lambda>s. s\<lparr>totalPlaytime := 0\<rparr>) w6)))
         else Some w1)"

definition sendPause :: "nat \<Rightarrow> tid \<Rightarrow> bag option \<Rightarrow> World \<Rightarrow> World option" where
  "sendPause n t att w =
     (let (ok, s1) = goPause (now w) (state_of w t); w1 = set_state t s1 w
      in if ok then send n t (if isAd w1 t then ''AD_PAUSE'' else ''CONTENT_PAUSE'') att w1
         else Some w1)"

definition sendResume :: "nat \<Rightarrow> tid \<Rightarrow> bag option \<Rightarrow> World \<Rightarrow> World option" where
  "sendResume n t att w =
     (let (ok, s1) = goResume (now w) (state_of w t); w1 = set_state t s1 w
      in if ok then
           (let att1 = att_or_empty att;
                d = JNum (getDeltaTime (now w1) (timeSincePaused (state_of w1 t)))
            in if isAd w1 t
               then send n t ''AD_RESUME'' (Some (att1(''timeSinceAdPaused'' \<mapsto> d))) w1
               else send n t ''CONTENT_RESUME'' (Some (att1(''timeSincePaused'' \<mapsto> d))) w1)
         else Some w1)"

definition buildBufferAttributes :: "World \<Rightarrow> tid \<Rightarrow> bag \<Rightarrow> bag" where
  "buildBufferAttributes w t att =
     (let s = state_of w t;
          tss = att_get att ''timeSinceStarted'';
          isInitialBuffering =
            (if nullish tss \<or> js_lt_num tss 100 then \<not> initialBufferingHappened s else False)
      in att(''isInitialBuffering'' \<mapsto> JBool isInitialBuffering,
             ''bufferType'' \<mapsto> JStr (calculateBufferType isInitialBuffering s),
             ''timeSinceResumed'' \<mapsto> JNum (getDeltaTime (now w) (timeSinceResumed s)),
             ''timeSinceSeekEnd'' \<mapsto> JNum (getDeltaTime (now w) (timeSinceSeekEnd s))))"

definition sendBufferStart :: "nat \<Rightarrow> tid \<Rightarrow> bag option \<Rightarrow> World \<Rightarrow> World option" where
  "sendBufferStart n t att w =
     (let (ok, s1) = goBufferStart (now w) (state_of w t); w1 = set_state t s1 w
      in if ok then
           (let att1 = att_or_empty att;
                ev = (if isAd w1 t then ''AD_BUFFER_START'' else ''CONTENT_BUFFER_START'');
                att2 = buildBufferAttributes w1 t att1;
                w2 = upd_tracker t (\<lambda>v. v\<lparr>lastBufferType := att_get att2 ''bufferType''\<rparr>) w1
            in send n t ev (Some att2) w2)
         else Some w1)"

definition sendBufferEnd :: "nat \<Rightarrow> tid \<Rightarrow> bag option \<Rightarrow> World \<Rightarrow> World option" where
  "sendBufferEnd n t att w =
     (let (ok, s1) = goBufferEnd (state_of w t); w1 = set_state t s1 w
      in if ok then
           (let att1 = att_or_empty att;
                d = JNum (getDeltaTime (now w1) (timeSinceBufferBegin (state_of w1 t)));
                (ev, att2) =
                  (if isAd w1 t
                   then (''AD_BUFFER_END'', att1(''timeSinceAdBufferBegin'' \<mapsto> d))
                   else (''CONTENT_BUFFER_END'', att1(''timeSinceBufferBegin'' \<mapsto> d)));
                att3 = buildBufferAttributes w1 t att2;
                att4 = (if \<not> nullish (lastBufferType (trackers w1 t))
                        then att3(''bufferType'' \<mapsto> lastBufferType (trackers w1 t))
                        else att3)
            in case send n t ev (Some att4) w1 of
                 None \<Rightarrow> None
               | Some w2 \<Rightarrow> Some (upd_state t (\<lambda>s. s\<lparr>initialBufferingHappened := True\<rparr>) w2))
         else Some w1)"

definition sendSeekStart :: "nat \<Rightarrow> tid \<Rightarrow> bag option \<Rightarrow> World \<Rightarrow> World option" where
  "sendSeekStart n t att w =
     (let (ok, s1) = goSeekStart (now w) (state_of w t); w1 = set_state t s1 w
      in if ok then
           send n t (if isAd w1 t then ''AD_SEEK_START'' else ''CONTENT_SEEK_START'') att w1
         else Some w1)"

definition sendSeekEnd :: "nat \<Rightarrow> tid \<Rightarrow> bag option \<Rightarrow> World \<Rightarrow> World option" where
  "sendSeekEnd n t att w =
     (let (ok, s1) = goSeekEnd (now w) (state_of w t); w1 = set_state t s1 w
      in if ok then
           (let att1 = att_or_empty att;
                d = JNum (getDeltaTime (now w1) (timeSinceSeekBegin (state_of w1 t)))
            in if isAd w1 t
               then send n t ''AD_SEEK_END'' (Some (att1(''timeSinceAdSeekBegin'' \<mapsto> d))) w1
               else send n t ''CONTENT_SEEK_END'' (Some (att1(''timeSinceSeekBegin'' \<mapsto> d))) w1)
         else Some w1)"

definition sendDownload :: "nat \<Rightarrow> tid \<Rightarrow> bag option \<Rightarrow> World \<Rightarrow> World option" where
  "sendDownload n t att w =
     (let att1 = att_or_empty att;
          w1 = (if \<not> truthy (att_get att1 ''state'')
                then Log_warn ''Called sendDownload without { state: xxxxx }.'' w else w)
      in case send n t ''DOWNLOAD'' (Some att1) w1 of
           None \<Rightarrow> None
         | Some w2 \<Rightarrow> Some (upd_state t goDownload w2))"

definition sendError :: "nat \<Rightarrow> tid \<Rightarrow> bag option \<Rightarrow> World \<Rightarrow> World option" where
  "sendError n t att w =
     (let att1 = (att_or_empty att)(''isAd'' \<mapsto> JBool (isAd w t));
          w1 = upd_state t goError w;
          ev = (if isAd w1 t then ''AD_ERROR'' else ''CONTENT_ERROR'')
      in send n t ev (Some att1) w1)"

definition sendRenditionChanged :: "nat \<Rightarrow> tid \<Rightarrow> bag option \<Rightarrow> World \<Rightarrow> World option" where
  "sendRenditionChanged n t att w =
     (let att1 = (att_or_empty att)(''timeSinceLastRenditionChange'' \<mapsto>
                    JNum (getDeltaTime (now w) (timeSinceLastRenditionChange (state_of w t))));
          (shift, w1) = getRenditionShift True t w;
          att2 = att1(''shift'' \<mapsto> shift);
          ev = (if isAd w1 t then ''AD_RENDITION_CHANGE'' else ''CONTENT_RENDITION_CHANGE'')
      in case send n t ev (Some att2) w1 of
           None \<Rightarrow> None
         | Some w2 \<Rightarrow> Some (upd_state t (goRenditionChange (now w2)) w2))"

definition sendHeartbeat :: "nat \<Rightarrow> tid \<Rightarrow> bag option \<Rightarrow> World \<Rightarrow> World option" where
  "sendHeartbeat n t att w =
     (if isRequested (state_of w t) then
        (case send n t (if isAd w t then ''AD_HEARTBEAT'' else ''CONTENT_HEARTBEAT'') att w of
           None \<Rightarrow> None
         | Some w1 \<Rightarrow> Some (upd_state t (goHeartbeat (now w1)) w1))
      else Some w)"

definition sendAdBreakStart :: "nat \<Rightarrow> tid \<Rightarrow> bag option \<Rightarrow> World \<Rightarrow> World option" where
  "sendAdBreakStart n t att w =
     (if isAd w t then
        (let (ok, s1) = goAdBreakStart (now w) (state_of w t); w1 = set_state t s1 w
         in if ok then
              (let w2 = upd_state t (\<lambda>s. s\<lparr>totalAdPlaytime := 0\<rparr>) w1;
                   w3 = (case parentTracker (trackers w2 t) of
                           None \<Rightarrow> w2
                         | Some p \<Rightarrow> upd_state p (\<lambda>s. s\<lparr>isPlaying := False\<rparr>) w2)
               in send n t ''AD_BREAK_START'' att w3)
            else Some w1)
      else Some w)"

definition sendAdBreakEnd :: "nat \<Rightarrow> tid \<Rightarrow> bag option \<Rightarrow> World \<Rightarrow> World option" where
  "sendAdBreakEnd n t att w =
     (if isAd w t then
        (let (ok, s1) = goAdBreakEnd (state_of w t); w1 = set_state t s1 w
         in if ok then
              (let att1 = (att_or_empty att)(''timeSinceAdBreakBegin'' \<mapsto>
                             JNum (getDeltaTime (now w1) (timeSinceAdBreakStart (state_of w1 t))))
               in case send n t ''AD_BREAK_END'' (Some att1) w1 of
                    None \<Rightarrow> None
                  | Some w2 \<Rightarrow>
                      (let w3 = (case parentTracker (trackers w2 t) of
                                   None \<Rightarrow> w2
                                 | Some p \<Rightarrow> upd_state p (\<lambda>s. s\<lparr>isPlaying := True\<rparr>) w2);
                           w4 = stopHeartbeat t w3
                       in Some (case parentTracker (trackers w4 t) of
                                  None \<Rightarrow> w4
                                | Some p \<Rightarrow>
                                    if isAd w4 t then upd_state p (goLastAd (now w4)) w4
                                    else w4)))
            else Some w1)
      else Some w)"

definition sendAdQuartile :: "nat \<Rightarrow> tid \<Rightarrow> bag option \<Rightarrow> World \<Rightarrow> World option" where
  "sendAdQuartile n t att w =
     (if isAd w t then
        (let att1 = att_or_empty att;
             w1 = (if \<not> truthy (att_get att1 ''quartile'')
                   then Log_warn ''Called sendAdQuartile without { quartile: xxxxx }.'' w
                   else w);
             att2 = att1(''timeSinceLastAdQuartile'' \<mapsto>
                      JNum (getDeltaTime (now w1) (timeSinceLastAdQuartile (state_of w1 t))))
         in case send n t ''AD_QUARTILE'' (Some att2) w1 of
              None \<Rightarrow> None
            | Some w2 \<Rightarrow> Some (upd_state t (goAdQuartile (now w2)) w2))
      else Some w)"

definition sendAdClick :: "nat \<Rightarrow> tid \<Rightarrow> bag option \<Rightarrow> World \<Rightarrow> World option" where
  "sendAdClick n t att w =
     (if isAd w t then
        (let att1 = att_or_empty att;
             w1 = (if \<not> truthy (att_get att1 ''url'')
                   then Log_warn ''Called sendAdClick without { url: xxxxx }.'' w else w)
         in send n t ''AD_CLICK'' (Some att1) w1)
      else Some w)"


section \<open>Call sequences\<close>

text \<open>
  What the host does with the trackers: it lets time pass, the player binding changes
  the rendition it reports, and the methods above are called. \<open>exec\<close> runs one call,
  \<open>run\<close> a sequence of them, stopping at the first exception.
\<close>

datatype Call =
    Tick nat
  | SetRenditionBitrate tid "int option"
  | SetIsAd tid bool
  | SetAdsTracker tid "tid option"
  | Dispose tid
  | GetRenditionShift tid bool
  | SendPlayerReady tid "bag option"
  | SendRequest tid "bag option"
  | SendStart tid "bag option"
  | SendEnd tid "bag option"
  | SendPause tid "bag option"
  | SendResume tid "bag option"
  | SendBufferStart tid "bag option"
  | SendBufferEnd tid "bag option"
  | SendSeekStart tid "bag option"
  | SendSeekEnd tid "bag option"
  | SendDownload tid "bag option"
  | SendError tid "bag option"
  | SendRenditionChanged tid "bag option"
  | SendHeartbeat tid "bag option"
  | SendAdBreakStart tid "bag option"
  | SendAdBreakEnd tid "bag option"
  | SendAdQuartile tid "bag option"
  | SendAdClick tid "bag option"

fun exec :: "nat \<Rightarrow> Call \<Rightarrow> World \<Rightarrow> World option" where
  "exec n (Tick d) w = Some (tick d w)"
| "exec n (SetRenditionBitrate t b) w = Some (upd_tracker t (\<lambda>v. v\<lparr>renditionBitrate := b\<rparr>) w)"
| "exec n (SetIsAd t b) w = Some (setIsAd t b w)"
| "exec n (SetAdsTracker t a) w = setAdsTracker n t a w"
| "exec n (Dispose t) w = dispose n t w"
| "exec n (GetRenditionShift t b) w = Some (snd (getRenditionShift b t w))"
| "exec n (SendPlayerReady t att) w = sendPlayerReady n t att w"
| "exec n (SendRequest t att) w = sendRequest n t att w"
| "exec n (SendStart t att) w = sendStart n t att w"
| "exec n (SendEnd t att) w = sendEnd n t att w"
| "exec n (SendPause t att) w = sendPause n t att w"
| "exec n (SendResume t att) w = sendResume n t att w"
| "exec n (SendBufferStart t att) w = sendBufferStart n t att w"
| "exec n (SendBufferEnd t att) w = sendBufferEnd n t att w"
| "exec n (SendSeekStart t att) w = sendSeekStart n t att w"
| "exec n (SendSeekEnd t att) w = sendSeekEnd n t att w"
| "exec n (SendDownload t att) w = sendDownload n t att w"
| "exec n (SendError t att) w = sendError n t att w"
| "exec n (SendRenditionChanged t att) w = sendRenditionChanged n t att w"
| "exec n (SendHeartbeat t att) w = sendHeartbeat n t att w"
| "exec n (SendAdBreakStart t att) w = sendAdBreakStart n t att w"
| "exec n (SendAdBreakEnd t att) w = sendAdBreakEnd n t att w"
| "exec n (SendAdQuartile t att) w = sendAdQuartile n t att w"
| "exec n (SendAdClick t att) w = sendAdClick n t att w"

fun run :: "nat \<Rightarrow> Call list \<Rightarrow> World \<Rightarrow> World option" where
  "run n [] w = Some w"
| "run n (c # cs) w = (case exec n c w of None \<Rightarrow> None | Some w' \<Rightarrow> run n cs w')"

text \<open>A sequence with no \<open>sendEnd\<close> on the tracker \<open>t\<close>.\<close>

fun is_sendEnd :: "tid \<Rightarrow> Call \<Rightarrow> bool" where
  "is_sendEnd t (SendEnd u att) = (u = t)"
| "is_sendEnd t _ = False"

definition no_sendEnd :: "tid \<Rightarrow> Call list \<Rightarrow> bool" where
  "no_sendEnd t cs = (list_all (\<lambda>c. \<not> is_sendEnd t c) cs)"

text \<open>
  A sequence in which no \<open>sendBufferStart\<close> on the tracker \<open>t\<close> is accepted: each
  such call, at the world it is made in, finds the guard \<open>goBufferStart\<close> closed.
\<close>

fun accepted_bufferStart :: "tid \<Rightarrow> Call \<Rightarrow> World \<Rightarrow> bool" where
  "accepted_bufferStart t (SendBufferStart u att) w =
     (u = t \<and> fst (goBufferStart (now w) (state_of w t)))"
| "accepted_bufferStart t _ w = False"

fun no_accepted_bufferStart :: "nat \<Rightarrow> tid \<Rightarrow> Call list \<Rightarrow> World \<Rightarrow> bool" where
  "no_accepted_bufferStart n t [] w = True"
| "no_accepted_bufferStart n t (c # cs) w =
     (\<not> accepted_bufferStart t c w \<and>
      (case exec n c w of None \<Rightarrow> True | Some w' \<Rightarrow> no_accepted_bufferStart n t cs w'))"


section \<open>What a call of send delivers\<close>

text \<open>
  The trackers an event sent by \<open>t\<close> is delivered for: \<open>t\<close> itself, then, listener by
  listener, the trackers the event is funnelled to. The list depends on the listeners
  only; \<open>None\<close> when the chain is deeper than the bound.
\<close>

definition listeners_of :: "World \<Rightarrow> tid \<Rightarrow> Handler list" where
  "listeners_of w = (\<lambda>t. listeners (trackers w t))"

fun send_targets :: "nat \<Rightarrow> (tid \<Rightarrow> Handler list) \<Rightarrow> tid \<Rightarrow> tid list option"
  and emit_targets :: "nat \<Rightarrow> (tid \<Rightarrow> Handler list) \<Rightarrow> Handler list \<Rightarrow> tid list option"
where
  "send_targets 0 L t = None"
| "send_targets (Suc n) L t = map_option (Cons t) (emit_targets n L (L t))"
| "emit_targets n L [] = Some []"
| "emit_targets n L (FunnelAdEvents None # hs) = None"
| "emit_targets n L (FunnelAdEvents (Some p) # hs) =
     (case send_targets n L p of
        None \<Rightarrow> None
      | Some a \<Rightarrow> (case emit_targets n L hs of None \<Rightarrow> None | Some b \<Rightarrow> Some (a @ b)))"

definition deliver_all :: "tid list \<Rightarrow> string \<Rightarrow> bag option \<Rightarrow> World \<Rightarrow> World" where
  "deliver_all ts ev att w = w\<lparr>sink := sink w @ map (\<lambda>p. (p, ev, att)) ts\<rparr>"

text \<open>The deliveries a call added to the sink, and the attribute bags among them.\<close>

definition delivered :: "World \<Rightarrow> World \<Rightarrow> event list" where
  "delivered w w' = drop (length (sink w)) (sink w')"

definition delivered_for :: "tid \<Rightarrow> World \<Rightarrow> World \<Rightarrow> (string \<times> bag option) list" where
  "delivered_for t w w' = map snd (filter (\<lambda>e. fst e = t) (delivered w w'))"


section \<open>Invariants\<close>

text \<open>No Chrono is marked in the future: the clock only moves forward.\<close>

definition clock_ok :: "World \<Rightarrow> bool" where
  "clock_ok w = (\<forall>t m. ref (chrono (state_of w t) m) \<le> now w)"

text \<open>
  A view is open: the phase is between request and end, and so is every phase that
  \<open>goBufferEnd\<close> or \<open>goSeekEnd\<close> can come back to.
\<close>

definition active :: "Phase \<Rightarrow> bool" where
  "active p = (p \<in> {REQUESTED, STARTED, PLAYING, PAUSED, BUFFERING, SEEKING})"

definition view_open :: "TrackerState \<Rightarrow> bool" where
  "view_open s =
     (active (phase s)
      \<and> (phase s = BUFFERING \<longrightarrow>
           active (phaseBeforeBuffer s)
           \<and> (phaseBeforeBuffer s = SEEKING \<longrightarrow> active (phaseBeforeSeek s)))
      \<and> (phase s = SEEKING \<longrightarrow>
           active (phaseBeforeSeek s)
           \<and> (phaseBeforeSeek s = BUFFERING \<longrightarrow> active (phaseBeforeBuffer s))))"

text \<open>
  The chain of parents from \<open>t\<close>: \<open>ps\<close> lists the parents in order, the last of them
  (or \<open>t\<close> itself when there is none) is \<open>r\<close>, the tracker without a parent.
\<close>

fun parent_chain :: "World \<Rightarrow> tid \<Rightarrow> tid list \<Rightarrow> tid \<Rightarrow> bool" where
  "parent_chain w t [] r = (t = r \<and> parentTracker (trackers w t) = None)"
| "parent_chain w t (p # ps) r = (parentTracker (trackers w t) = Some p \<and> parent_chain w p ps r)"


section \<open>Vocabulary of the theorems\<close>

text \<open>A state whose Chronos are all marked no later than the instant \<open>x\<close>.\<close>

definition chr_ok :: "int \<Rightarrow> TrackerState \<Rightarrow> bool" where
  "chr_ok x s = (\<forall>m. ref (chrono s m) \<le> x)"

text \<open>The event names the role selects.\<close>

definition request_event :: "World \<Rightarrow> tid \<Rightarrow> string" where
  "request_event w t = (if isAd w t then ''AD_REQUEST'' else ''CONTENT_REQUEST'')"

definition buffer_start_event :: "World \<Rightarrow> tid \<Rightarrow> string" where
  "buffer_start_event w t = (if isAd w t then ''AD_BUFFER_START'' else ''CONTENT_BUFFER_START'')"

definition buffer_end_event :: "World \<Rightarrow> tid \<Rightarrow> string" where
  "buffer_end_event w t = (if isAd w t then ''AD_BUFFER_END'' else ''CONTENT_BUFFER_END'')"

text \<open>
  The rendition baseline of the tracker's current role, and the baseline of the other
  role.
\<close>

definition role_last :: "World \<Rightarrow> tid \<Rightarrow> int option" where
  "role_last w t = (if isAd w t then lastAdRendition (trackers w t) else lastRendition (trackers w t))"

definition other_last :: "World \<Rightarrow> tid \<Rightarrow> int option" where
  "other_last w t = (if isAd w t then lastRendition (trackers w t) else lastAdRendition (trackers w t))"

text \<open>
  The buffer type \<open>sendBufferStart\<close> computes, read off the world and the attributes
  the call is made with; and the attribute bags \<open>sendBufferStart\<close> and
  \<open>sendBufferEnd\<close> hand to \<open>send\<close>.
\<close>

definition bufferType_at_start :: "World \<Rightarrow> tid \<Rightarrow> bag option \<Rightarrow> string" where
  "bufferType_at_start w t att =
     (let tss = att_get (att_or_empty att) ''timeSinceStarted''
      in if (nullish tss \<or> js_lt_num tss 100) \<and> \<not> initialBufferingHappened (state_of w t)
         then ''initial''
         else if phase (state_of w t) = SEEKING then ''seek''
         else ''other'')"

definition built_at_start :: "World \<Rightarrow> tid \<Rightarrow> bag option \<Rightarrow> bag" where
  "built_at_start w t att =
     buildBufferAttributes (set_state t (snd (goBufferStart (now w) (state_of w t))) w) t
       (att_or_empty att)"

definition built_at_end :: "World \<Rightarrow> tid \<Rightarrow> bag option \<Rightarrow> bag" where
  "built_at_end w t att =
     (let w1 = set_state t (snd (goBufferEnd (state_of w t))) w;
          d = JNum (getDeltaTime (now w1) (timeSinceBufferBegin (state_of w1 t)));
          att2 = (if isAd w t then (att_or_empty att)(''timeSinceAdBufferBegin'' \<mapsto> d)
                  else (att_or_empty att)(''timeSinceBufferBegin'' \<mapsto> d));
          att3 = buildBufferAttributes w1 t att2
      in if \<not> nullish (lastBufferType (trackers w t))
         then att3(''bufferType'' \<mapsto> lastBufferType (trackers w t))
         else att3)"


section \<open>The specification's wording, for comparison\<close>

text \<open>
  The rendition shift as section 8 words it: \<open>up\<close> when the current bitrate is greater
  than the last one, \<open>down\<close> when it is smaller, null when they are equal or when either
  is absent.
\<close>

definition claimed_shift :: "int option \<Rightarrow> int option \<Rightarrow> jsval" where
  "claimed_shift current prior =
     (case (current, prior) of
        (Some c, Some l) \<Rightarrow> if c > l then JStr ''up'' else if c < l then JStr ''down'' else JNull
      | _ \<Rightarrow> JNull)"



section \<open>Worlds used as examples\<close>

text \<open>
  \<open>W0\<close> holds freshly constructed trackers only. The other worlds are reached from it
  by the calls written in their definitions; \<open>after\<close> reads the world a call returned.
  In \<open>W_ads\<close> tracker 0 is a content tracker and tracker 1 its ads tracker.
\<close>

definition example_session :: "tid \<Rightarrow> string" where
  "example_session t = (if t = 0 then ''content-session'' else ''ad-session'')"

definition W0 :: World where
  "W0 = World_new example_session"

definition after :: "World option \<Rightarrow> World" where
  "after r = (case r of None \<Rightarrow> W0 | Some w \<Rightarrow> w)"

definition W_requested :: World where
  "W_requested = after (sendRequest 1 0 None W0)"

definition W_later :: World where
  "W_later = after (run 1 [SendStart 0 None, Tick 10, SendPause 0 None] W_requested)"

definition W_playing :: World where
  "W_playing = after (run 1 [SendRequest 0 None, SendStart 0 None] W0)"

definition W_playing70 :: World where
  "W_playing70 = tick 70 W_playing"


definition W_buffering :: World where
  "W_buffering = after (sendBufferStart 1 0 None W_playing70)"

definition W_buffering_later :: World where
  "W_buffering_later =
     after (run 1 [Tick 40, SendBufferStart 0 None, SendHeartbeat 0 None] W_buffering)"

definition W_ads :: World where
  "W_ads = after (setAdsTracker 1 0 (Some 1) W0)"

definition W_adbreak :: World where
  "W_adbreak = after (run 2 [SendAdBreakStart 1 None, Tick 30] W_ads)"

definition W_rendition800 :: World where
  "W_rendition800 =
     after (run 1 [SetRenditionBitrate 0 (Some 500), GetRenditionShift 0 True,
                   SetRenditionBitrate 0 (Some 800)] W0)"

definition W_rendition0 :: World where
  "W_rendition0 =
     after (run 1 [SetRenditionBitrate 0 (Some 500), GetRenditionShift 0 True,
                   SetRenditionBitrate 0 (Some 0)] W0)"



section \<open>Facts about the store and about send\<close>

lemma upd_tracker_simps [simp]:
  "trackers (upd_tracker t f w) = (trackers w)(t := f (trackers w t))"
  "sink (upd_tracker t f w) = sink w"
  "warnings (upd_tracker t f w) = warnings w"
  "now (upd_tracker t f w) = now w"
  by (simp_all add: upd_tracker_def)

lemma upd_state_simps [simp]:
  "trackers (upd_state t g w) = (trackers w)(t := (trackers w t)\<lparr>state := g (state (trackers w t))\<rparr>)"
  "sink (upd_state t g w) = sink w"
  "warnings (upd_state t g w) = warnings w"
  "now (upd_state t g w) = now w"
  by (simp_all add: upd_state_def)

lemma state_of_upd_state [simp]:
  "state_of (upd_state p g w) u = (if u = p then g (state_of w u) else state_of w u)"
  by (simp add: state_of_def)

lemma set_state_same [simp]: "set_state t (state_of w t) w = w"
  by (simp add: set_state_def upd_state_def upd_tracker_def state_of_def)

lemma set_state_simps [simp]:
  "trackers (set_state t s w) = (trackers w)(t := (trackers w t)\<lparr>state := s\<rparr>)"
  "sink (set_state t s w) = sink w"
  "warnings (set_state t s w) = warnings w"
  "now (set_state t s w) = now w"
  by (simp_all add: set_state_def)

lemma state_of_set_state [simp]:
  "state_of (set_state p s w) u = (if u = p then s else state_of w u)"
  by (simp add: set_state_def)

lemma listeners_of_upd_state [simp]: "listeners_of (upd_state t g w) = listeners_of w"
  by (auto simp: listeners_of_def)

lemma listeners_of_set_state [simp]: "listeners_of (set_state t s w) = listeners_of w"
  by (simp add: set_state_def)

lemma listeners_of_upd_tracker [simp]:
  "(\<And>v. listeners (f v) = listeners v) \<Longrightarrow> listeners_of (upd_tracker t f w) = listeners_of w"
  by (auto simp: listeners_of_def)

lemma isAd_upd_tracker_keep [simp]:
  "(\<And>v. state (f v) = state v) \<Longrightarrow> isAd (upd_tracker t f w) = isAd w"
  by (auto simp: isAd_def state_of_def fun_eq_iff)

lemma deliver_simps [simp]:
  "trackers (deliver t ev att w) = trackers w"
  "sink (deliver t ev att w) = sink w @ [(t, ev, att)]"
  "warnings (deliver t ev att w) = warnings w"
  "now (deliver t ev att w) = now w"
  by (simp_all add: deliver_def)

lemma deliver_all_simps [simp]:
  "trackers (deliver_all ts ev att w) = trackers w"
  "sink (deliver_all ts ev att w) = sink w @ map (\<lambda>p. (p, ev, att)) ts"
  "warnings (deliver_all ts ev att w) = warnings w"
  "now (deliver_all ts ev att w) = now w"
  by (simp_all add: deliver_all_def)

lemma state_of_deliver_all [simp]: "state_of (deliver_all ts ev att w) = state_of w"
  by (simp add: state_of_def fun_eq_iff)

lemma isAd_deliver_all [simp]: "isAd (deliver_all ts ev att w) = isAd w"
  by (simp add: isAd_def fun_eq_iff)

lemma deliver_all_Nil [simp]: "deliver_all [] ev att w = w"
  by (simp add: deliver_all_def)

lemma deliver_all_append:
  "deliver_all (a @ b) ev att w = deliver_all b ev att (deliver_all a ev att w)"
  by (simp add: deliver_all_def)

lemma deliver_all_Cons:
  "deliver_all (t # ts) ev att w = deliver_all ts ev att (deliver t ev att w)"
  by (simp add: deliver_all_def deliver_def)

lemma listeners_of_deliver [simp]: "listeners_of (deliver t ev att w) = listeners_of w"
  by (simp add: listeners_of_def)

lemma listeners_of_deliver_all [simp]: "listeners_of (deliver_all ts ev att w) = listeners_of w"
  by (simp add: listeners_of_def)

lemma heartbeat_simps [simp]:
  "listeners_of (startHeartbeat t w) = listeners_of w"
  "listeners_of (stopHeartbeat t w) = listeners_of w"
  "state_of (startHeartbeat t w) = state_of w"
  "state_of (stopHeartbeat t w) = state_of w"
  "sink (startHeartbeat t w) = sink w"
  "sink (stopHeartbeat t w) = sink w"
  "now (startHeartbeat t w) = now w"
  "now (stopHeartbeat t w) = now w"
  "warnings (startHeartbeat t w) = warnings w"
  "warnings (stopHeartbeat t w) = warnings w"
  "isAd (startHeartbeat t w) = isAd w"
  "isAd (stopHeartbeat t w) = isAd w"
  "parentTracker (trackers (startHeartbeat t w) u) = parentTracker (trackers w u)"
  "parentTracker (trackers (stopHeartbeat t w) u) = parentTracker (trackers w u)"
  by (simp_all add: startHeartbeat_def stopHeartbeat_def state_of_def isAd_def fun_eq_iff)

lemma Log_warn_simps [simp]:
  "trackers (Log_warn m w) = trackers w"
  "sink (Log_warn m w) = sink w"
  "warnings (Log_warn m w) = warnings w @ [m]"
  "now (Log_warn m w) = now w"
  "listeners_of (Log_warn m w) = listeners_of w"
  "state_of (Log_warn m w) = state_of w"
  "isAd (Log_warn m w) = isAd w"
  by (simp_all add: Log_warn_def listeners_of_def state_of_def isAd_def fun_eq_iff)

lemma isAd_upd_state [simp]:
  "isAd (upd_state p g w) u = (if u = p then state_isAd (g (state_of w u)) else isAd w u)"
  by (simp add: isAd_def)

lemma isAd_set_state [simp]:
  "isAd (set_state p s w) u = (if u = p then state_isAd s else isAd w u)"
  by (simp add: isAd_def)

text \<open>
  A call of \<open>send\<close> returns exactly when the chain of funnels is within the bound, and
  then it has delivered the event, with its name and attributes as they were passed, once
  for each tracker of the chain. Nothing else changes.
\<close>

lemma send_emit_char:
  "send n t ev att w =
      map_option (\<lambda>ts. deliver_all ts ev att w) (send_targets n (listeners_of w) t)"
  "emit n hs ev att w =
      map_option (\<lambda>ts. deliver_all ts ev att w) (emit_targets n (listeners_of w) hs)"
  "funnelAdEvents n this ev att w =
      (case this of None \<Rightarrow> None
       | Some p \<Rightarrow> map_option (\<lambda>ts. deliver_all ts ev att w) (send_targets n (listeners_of w) p))"
proof (induction n t ev att w and n hs ev att w and n this ev att w
       rule: send_emit_funnelAdEvents.induct)
  case (1 t ev att w)
  show ?case by simp
next
  case (2 n t ev att w)
  then show ?case
    by (simp add: option.map_comp comp_def deliver_all_Cons listeners_of_def)
next
  case (3 n ev att w)
  show ?case by simp
next
  case (4 n this hs ev att w)
  show ?case
  proof (cases this)
    case None
    then show ?thesis by simp
  next
    case (Some p)
    show ?thesis
    proof (cases "send_targets n (listeners_of w) p")
      case None
      with Some 4(1) show ?thesis by simp
    next
      case (Some a)
      with \<open>this = Some p\<close> 4(1)
      have f: "funnelAdEvents n this ev att w = Some (deliver_all a ev att w)" by simp
      from 4(2)[OF f] Some \<open>this = Some p\<close> f show ?thesis
        by (simp add: deliver_all_append split: option.splits)
    qed
  qed
next
  case (5 n e_type e_data w)
  show ?case by simp
next
  case (6 n this e_type e_data w)
  then show ?case by simp
qed

lemma send_targets_hd: "send_targets n L t = Some ts \<Longrightarrow> \<exists>ts'. ts = t # ts'"
  by (cases n) auto

lemma W0_simps [simp]:
  "trackers W0 t = VideoTracker_new (example_session t) 0"
  "sink W0 = []"
  "warnings W0 = []"
  "now W0 = 0"
  "listeners_of W0 t = []"
  "state_of W0 t = TrackerState_new (example_session t) 0"
  "isAd W0 t = False"
  by (simp_all add: W0_def World_new_def listeners_of_def state_of_def isAd_def
        VideoTracker_new_def TrackerState_new_def state_isAd_def)


section \<open>The chain of funnels\<close>

text \<open>
  A chain that ends within the bound ends within every larger bound, and it never comes
  back to the tracker it started from: a tracker that is its own ancestor sends without
  end.
\<close>

lemma targets_mono:
  "send_targets n L t = Some ts \<Longrightarrow> send_targets (Suc n) L t = Some ts"
  "emit_targets n L hs = Some xs \<Longrightarrow> emit_targets (Suc n) L hs = Some xs"
proof (induction n L t and n L hs arbitrary: ts and xs rule: send_targets_emit_targets.induct)
  case (1 L t)
  then show ?case by simp
next
  case (2 n L t)
  then show ?case by (auto simp del: send_targets.simps(2) simp add: send_targets.simps(2)[of n] send_targets.simps(2)[of "Suc n"])
next
  case (3 n L)
  then show ?case by simp
next
  case (4 n L hs)
  then show ?case by simp
next
  case (5 n L p hs)
  then show ?case by (auto split: option.splits)
qed

lemma targets_mono_le:
  "send_targets m L t = Some ts \<Longrightarrow> m \<le> n \<Longrightarrow> send_targets n L t = Some ts"
proof (induction n)
  case 0
  then show ?case by simp
next
  case (Suc n)
  show ?case
  proof (cases "m = Suc n")
    case True
    with Suc.prems show ?thesis by simp
  next
    case False
    with Suc.prems have "m \<le> n" by simp
    with Suc have "send_targets n L t = Some ts" by simp
    then show ?thesis by (rule targets_mono(1))
  qed
qed

lemma targets_sub:
  "send_targets n L t = Some ts \<Longrightarrow>
     \<forall>p \<in> set ts. \<exists>m ps. m \<le> n \<and> send_targets m L p = Some ps \<and> length ps \<le> length ts"
  "emit_targets n L hs = Some xs \<Longrightarrow>
     \<forall>p \<in> set xs. \<exists>m ps. m \<le> n \<and> send_targets m L p = Some ps \<and> length ps \<le> length xs"
proof (induction n L t and n L hs arbitrary: ts and xs rule: send_targets_emit_targets.induct)
  case (1 L t)
  then show ?case by simp
next
  case (2 n L t)
  from 2(2) obtain xs where xs: "emit_targets n L (L t) = Some xs" and ts: "ts = t # xs"
    by auto
  show ?case
  proof
    fix p assume "p \<in> set ts"
    then consider "p = t" | "p \<in> set xs" using ts by auto
    then show "\<exists>m ps. m \<le> Suc n \<and> send_targets m L p = Some ps \<and> length ps \<le> length ts"
    proof cases
      case 1
      with 2(2) show ?thesis by blast
    next
      case 2
      with "2.IH"[OF xs] obtain m ps where
        "m \<le> n" "send_targets m L p = Some ps" "length ps \<le> length xs" by blast
      then show ?thesis using ts by (intro exI[of _ m] exI[of _ ps]) simp
    qed
  qed
next
  case (3 n L)
  then show ?case by simp
next
  case (4 n L hs)
  then show ?case by simp
next
  case (5 n L p hs)
  from 5(3) obtain a b where a: "send_targets n L p = Some a"
    and b: "emit_targets n L hs = Some b" and xs: "xs = a @ b"
    by (auto split: option.splits)
  show ?case
  proof
    fix q assume "q \<in> set xs"
    then consider "q \<in> set a" | "q \<in> set b" using xs by auto
    then show "\<exists>m ps. m \<le> n \<and> send_targets m L q = Some ps \<and> length ps \<le> length xs"
    proof cases
      case 1
      with "5.IH"(1)[OF a] obtain m ps where
        "m \<le> n" "send_targets m L q = Some ps" "length ps \<le> length a" by blast
      then show ?thesis using xs by (intro exI[of _ m] exI[of _ ps]) simp
    next
      case 2
      with "5.IH"(2)[OF a b] obtain m ps where
        "m \<le> n" "send_targets m L q = Some ps" "length ps \<le> length b" by blast
      then show ?thesis using xs by (intro exI[of _ m] exI[of _ ps]) simp
    qed
  qed
qed

lemma send_targets_acyclic:
  assumes "send_targets n L t = Some ts"
  shows "\<exists>xs. ts = t # xs \<and> t \<notin> set xs"
proof (cases n)
  case 0
  with assms show ?thesis by simp
next
  case (Suc k)
  with assms obtain xs where xs: "emit_targets k L (L t) = Some xs" and ts: "ts = t # xs"
    by auto
  have "t \<notin> set xs"
  proof
    assume "t \<in> set xs"
    with targets_sub(2)[OF xs] obtain m ps where
      m: "m \<le> k" and ps: "send_targets m L t = Some ps" and len: "length ps \<le> length xs"
      by blast
    from targets_mono_le[OF ps, of n] m Suc have "send_targets n L t = Some ps" by simp
    with assms ts have "ps = t # xs" by simp
    with len show False by simp
  qed
  with ts show ?thesis by simp
qed




section \<open>dispose changes no state\<close>

lemma off_all_simps [simp]:
  "sink (off_all a h w) = sink w"
  "now (off_all a h w) = now w"
  "warnings (off_all a h w) = warnings w"
  "state_of (off_all a h w) = state_of w"
  "lastBufferType (trackers (off_all a h w) u) = lastBufferType (trackers w u)"
  "adsTracker (trackers (off_all a h w) u) = adsTracker (trackers w u)"
  by (simp_all add: off_all_def state_of_def fun_eq_iff)

lemma on_all_simps [simp]:
  "sink (on_all a h w) = sink w"
  "now (on_all a h w) = now w"
  "warnings (on_all a h w) = warnings w"
  "state_of (on_all a h w) = state_of w"
  "lastBufferType (trackers (on_all a h w) u) = lastBufferType (trackers w u)"
  by (simp_all add: on_all_def state_of_def fun_eq_iff)

lemma dispose_frame:
  "dispose n t w = Some w' \<Longrightarrow>
     sink w' = sink w \<and> now w' = now w \<and> state_of w' = state_of w
     \<and> (\<forall>u. lastBufferType (trackers w' u) = lastBufferType (trackers w u))"
  "disposeAdsTracker n t w = Some w' \<Longrightarrow>
     sink w' = sink w \<and> now w' = now w \<and> state_of w' = state_of w
     \<and> (\<forall>u. lastBufferType (trackers w' u) = lastBufferType (trackers w u))"
proof (induction n t w and n t w arbitrary: w' and w' rule: dispose_disposeAdsTracker.induct)
  case (1 t w)
  then show ?case by simp
next
  case (2 n t w)
  from 2(2) obtain w1 where w1: "disposeAdsTracker n t (stopHeartbeat t w) = Some w1"
    and w': "w' = upd_tracker t (\<lambda>v. v\<lparr>player := None, tag := None\<rparr>) w1"
    by (auto split: option.splits)
  from "2.IH"[OF w1] w' show ?case
    by (auto simp: state_of_def fun_eq_iff stopHeartbeat_def)
next
  case (3 n t w)
  show ?case
  proof (cases "adsTracker (trackers w t)")
    case None
    with 3(2) show ?thesis by simp
  next
    case (Some a)
    with 3(2) have d: "dispose n a (off_all a (FunnelAdEvents None) w) = Some w'" by simp
    from "3.IH"[OF Some d] show ?thesis by simp
  qed
qed


section \<open>The clock invariant\<close>

text \<open>
  Every call marks its Chronos at the current instant and the clock only moves forward,
  so in every world reached from the constructor no Chrono is marked in the future.
\<close>

lemma clock_ok_iff: "clock_ok w = (\<forall>t. chr_ok (now w) (state_of w t))"
  by (auto simp: clock_ok_def chr_ok_def)

lemma chr_ok_mark_at [simp]: "chr_ok x s \<Longrightarrow> chr_ok x (mark_at m x s)"
  by (simp add: chr_ok_def mark_at_def mark_def)


lemma chr_ok_go [simp]:
  "chr_ok x s \<Longrightarrow> chr_ok x (snd (goPlayerReady s))"
  "chr_ok x s \<Longrightarrow> chr_ok x (snd (goRequest x s))"
  "chr_ok x s \<Longrightarrow> chr_ok x (snd (goStart x s))"
  "chr_ok x s \<Longrightarrow> chr_ok x (snd (goEnd s))"
  "chr_ok x s \<Longrightarrow> chr_ok x (snd (goPause x s))"
  "chr_ok x s \<Longrightarrow> chr_ok x (snd (goResume x s))"
  "chr_ok x s \<Longrightarrow> chr_ok x (snd (goBufferStart x s))"
  "chr_ok x s \<Longrightarrow> chr_ok x (snd (goBufferEnd s))"
  "chr_ok x s \<Longrightarrow> chr_ok x (snd (goSeekStart x s))"
  "chr_ok x s \<Longrightarrow> chr_ok x (snd (goSeekEnd x s))"
  "chr_ok x s \<Longrightarrow> chr_ok x (snd (goAdBreakStart x s))"
  "chr_ok x s \<Longrightarrow> chr_ok x (snd (goAdBreakEnd s))"
  "chr_ok x s \<Longrightarrow> chr_ok x (goAdQuartile x s)"
  "chr_ok x s \<Longrightarrow> chr_ok x (goDownload s)"
  "chr_ok x s \<Longrightarrow> chr_ok x (goError s)"
  "chr_ok x s \<Longrightarrow> chr_ok x (goRenditionChange x s)"
  "chr_ok x s \<Longrightarrow> chr_ok x (goHeartbeat x s)"
  "chr_ok x s \<Longrightarrow> chr_ok x (goLastAd x s)"
  "chr_ok x s \<Longrightarrow> chr_ok x (goViewCountUp s)"
  "chr_ok x s \<Longrightarrow> chr_ok x (state_setIsAd b s)"
  by (simp_all add: chr_ok_def goPlayerReady_def goRequest_def goStart_def goEnd_def goPause_def
        goResume_def goBufferStart_def goBufferEnd_def goSeekStart_def goSeekEnd_def
        goAdBreakStart_def goAdBreakEnd_def goAdQuartile_def goDownload_def goError_def
        goRenditionChange_def goHeartbeat_def goLastAd_def goViewCountUp_def state_setIsAd_def
        mark_at_def mark_def)

lemma chr_ok_fields [simp]:
  "chr_ok x (s\<lparr>isPlaying := b\<rparr>) = chr_ok x s"
  "chr_ok x (s\<lparr>totalPlaytime := i\<rparr>) = chr_ok x s"
  "chr_ok x (s\<lparr>totalAdPlaytime := i\<rparr>) = chr_ok x s"
  "chr_ok x (s\<lparr>initialBufferingHappened := b\<rparr>) = chr_ok x s"
  by (simp_all add: chr_ok_def)

lemma clock_ok_upd_state:
  "clock_ok w \<Longrightarrow> chr_ok (now w) (g (state_of w p)) \<Longrightarrow> clock_ok (upd_state p g w)"
  by (simp add: clock_ok_iff)

lemma clock_ok_set_state:
  "clock_ok w \<Longrightarrow> chr_ok (now w) s \<Longrightarrow> clock_ok (set_state p s w)"
  by (simp add: clock_ok_iff)


lemma clock_ok_keep [simp]:
  "clock_ok (deliver_all ts ev att w) = clock_ok w"
  "clock_ok (stopHeartbeat t w) = clock_ok w"
  "clock_ok (startHeartbeat t w) = clock_ok w"
  "clock_ok (Log_warn msg w) = clock_ok w"
  by (simp_all add: clock_ok_iff)

lemma clock_ok_upd_tracker [simp]:
  "(\<And>v. state (f v) = state v) \<Longrightarrow> clock_ok (upd_tracker t f w) = clock_ok w"
  by (auto simp: clock_ok_iff state_of_def)

lemma clock_ok_tick: "clock_ok w \<Longrightarrow> clock_ok (tick d w)"
proof -
  assume a: "clock_ok w"
  have "ref (chrono (state_of (tick d w) t) m) \<le> now (tick d w)" for t m
  proof -
    from a have "ref (chrono (state_of w t) m) \<le> now w" by (simp add: clock_ok_def)
    then show ?thesis by (simp add: tick_def state_of_def)
  qed
  then show ?thesis by (simp add: clock_ok_def)
qed


lemma clock_ok_World_new: "clock_ok (World_new session)"
  by (simp add: clock_ok_def World_new_def state_of_def VideoTracker_new_def
        TrackerState_new_def Chrono_new_def)

lemma chr_ok_now [simp]: "clock_ok w \<Longrightarrow> chr_ok (now w) (state_of w t)"
  by (simp add: clock_ok_iff)

lemmas clock_intros = clock_ok_upd_state clock_ok_set_state

lemma getRenditionShift_frame:
  "state_of (snd (getRenditionShift b t w)) = state_of w"
  "now (snd (getRenditionShift b t w)) = now w"
  "sink (snd (getRenditionShift b t w)) = sink w"
  "listeners_of (snd (getRenditionShift b t w)) = listeners_of w"
  "isAd (snd (getRenditionShift b t w)) = isAd w"
  "lastBufferType (trackers (snd (getRenditionShift b t w)) u) = lastBufferType (trackers w u)"
  by (auto simp: getRenditionShift_def Let_def state_of_def fun_eq_iff split: if_splits)

lemma setAdsTracker_clock_ok:
  assumes "setAdsTracker n t a w = Some w'" and "clock_ok w"
  shows "clock_ok w'"
proof -
  from assms(1) obtain w1 where d: "disposeAdsTracker n t w = Some w1"
    by (auto simp: setAdsTracker_def split: option.splits)
  from dispose_frame(2)[OF d] assms(2) have c1: "clock_ok w1"
    by (simp add: clock_ok_iff)
  from assms(1) d c1 show ?thesis
    by (auto simp: setAdsTracker_def Let_def setIsAd_def clock_ok_iff state_of_def on_all_def
          chr_ok_def state_setIsAd_def split: option.splits)
qed

lemma dispose_clock_ok:
  assumes "dispose n t w = Some w'" and "clock_ok w"
  shows "clock_ok w'"
  using dispose_frame(1)[OF assms(1)] assms(2) by (simp add: clock_ok_iff)

lemma exec_clock_ok:
  assumes "exec n c w = Some w'" and "clock_ok w"
  shows "clock_ok w'"
proof (cases c)
  case (Tick d)
  with assms show ?thesis by (auto intro: clock_ok_tick)
next
  case (SetRenditionBitrate t b)
  with assms show ?thesis by auto
next
  case (SetIsAd t b)
  with assms show ?thesis by (auto simp: setIsAd_def intro!: clock_intros)
next
  case (SetAdsTracker t a)
  with assms show ?thesis by (auto intro: setAdsTracker_clock_ok)
next
  case (Dispose t)
  with assms show ?thesis by (auto intro: dispose_clock_ok)
next
  case (GetRenditionShift t b)
  with assms show ?thesis by (auto simp: clock_ok_iff getRenditionShift_frame)
next
  case (SendPlayerReady t att)
  with assms show ?thesis
    by (auto simp: sendPlayerReady_def Let_def split_def send_emit_char(1)
          intro!: clock_intros split: if_splits)
next
  case (SendRequest t att)
  with assms show ?thesis
    by (auto simp: sendRequest_def Let_def split_def send_emit_char(1)
          intro!: clock_intros split: if_splits option.splits)
next
  case (SendStart t att)
  with assms show ?thesis
    by (auto simp: sendStart_def Let_def split_def send_emit_char(1)
          intro!: clock_intros split: if_splits option.splits)
next
  case (SendEnd t att)
  with assms show ?thesis
    by (auto simp: sendEnd_def Let_def split_def send_emit_char(1)
          intro!: clock_intros split: if_splits option.splits)
next
  case (SendPause t att)
  with assms show ?thesis
    by (auto simp: sendPause_def Let_def split_def send_emit_char(1)
          intro!: clock_intros split: if_splits option.splits)
next
  case (SendResume t att)
  with assms show ?thesis
    by (auto simp: sendResume_def Let_def split_def send_emit_char(1)
          intro!: clock_intros split: if_splits option.splits)
next
  case (SendBufferStart t att)
  with assms show ?thesis
    by (auto simp: sendBufferStart_def Let_def split_def send_emit_char(1)
          intro!: clock_intros split: if_splits option.splits)
next
  case (SendBufferEnd t att)
  with assms show ?thesis
    by (auto simp: sendBufferEnd_def Let_def split_def send_emit_char(1)
          intro!: clock_intros split: if_splits option.splits)
next
  case (SendSeekStart t att)
  with assms show ?thesis
    by (auto simp: sendSeekStart_def Let_def split_def send_emit_char(1)
          intro!: clock_intros split: if_splits option.splits)
next
  case (SendSeekEnd t att)
  with assms show ?thesis
    by (auto simp: sendSeekEnd_def Let_def split_def send_emit_char(1)
          intro!: clock_intros split: if_splits option.splits)
next
  case (SendDownload t att)
  with assms show ?thesis
    by (auto simp: sendDownload_def Let_def split_def send_emit_char(1)
          intro!: clock_intros split: if_splits option.splits)
next
  case (SendError t att)
  with assms show ?thesis
    by (auto simp: sendError_def Let_def split_def send_emit_char(1)
          intro!: clock_intros split: if_splits option.splits)
next
  case (SendRenditionChanged t att)
  with assms show ?thesis
    by (auto simp: sendRenditionChanged_def Let_def split_def send_emit_char(1)
          getRenditionShift_frame clock_ok_iff split: if_splits option.splits)
next
  case (SendHeartbeat t att)
  with assms show ?thesis
    by (auto simp: sendHeartbeat_def Let_def split_def send_emit_char(1)
          intro!: clock_intros split: if_splits option.splits)
next
  case (SendAdBreakStart t att)
  with assms show ?thesis
    by (auto simp: sendAdBreakStart_def Let_def split_def send_emit_char(1)
          intro!: clock_intros split: if_splits option.splits)
next
  case (SendAdBreakEnd t att)
  with assms show ?thesis
    by (auto simp: sendAdBreakEnd_def Let_def split_def send_emit_char(1)
          intro!: clock_intros split: if_splits option.splits)
next
  case (SendAdQuartile t att)
  with assms show ?thesis
    by (auto simp: sendAdQuartile_def Let_def split_def send_emit_char(1)
          intro!: clock_intros split: if_splits option.splits)
next
  case (SendAdClick t att)
  with assms show ?thesis
    by (auto simp: sendAdClick_def Let_def split_def send_emit_char(1)
          intro!: clock_intros split: if_splits option.splits)
qed

lemma run_clock_ok: "run n cs w = Some w' \<Longrightarrow> clock_ok w \<Longrightarrow> clock_ok w'"
proof (induction cs arbitrary: w)
  case Nil
  then show ?case by simp
next
  case (Cons c cs)
  from Cons.prems(1) obtain w1 where e: "exec n c w = Some w1" and r: "run n cs w1 = Some w'"
    by (auto split: option.splits)
  from Cons.IH[OF r exec_clock_ok[OF e Cons.prems(2)]] show ?case .
qed


section \<open>An open view stays open until sendEnd\<close>

lemma active_simps [simp]:
  "active REQUESTED" "active STARTED" "active PLAYING" "active PAUSED" "active BUFFERING"
  "active SEEKING" "\<not> active IDLE" "\<not> active READY" "\<not> active ENDED"
  by (simp_all add: active_def)

lemma isRequested_active: "isRequested s = active (phase s)"
  by (simp add: isRequested_def active_def)

lemma view_open_active: "view_open s \<Longrightarrow> active (phase s)"
  by (simp add: view_open_def)

lemma view_open_marks [simp]:
  "view_open (mark_at m x s) = view_open s"
  "view_open (goViewCountUp s) = view_open s"
  "view_open (state_setIsAd b s) = view_open s"
  "view_open (s\<lparr>isAdBreak := b\<rparr>) = view_open s"
  by (simp_all add: view_open_def mark_at_def goViewCountUp_def state_setIsAd_def)

lemma view_open_goPlayerReady: "view_open s \<Longrightarrow> view_open (snd (goPlayerReady s))"
  using view_open_active[of s] by (auto simp: goPlayerReady_def)

lemma view_open_goRequest: "view_open s \<Longrightarrow> view_open (snd (goRequest x s))"
  using view_open_active[of s] by (auto simp: goRequest_def)

lemma view_open_goStart: "view_open s \<Longrightarrow> view_open (snd (goStart x s))"
  by (simp add: goStart_def view_open_def mark_at_def)

lemma view_open_goPause: "view_open s \<Longrightarrow> view_open (snd (goPause x s))"
  by (simp add: goPause_def view_open_def mark_at_def)

lemma view_open_goResume: "view_open s \<Longrightarrow> view_open (snd (goResume x s))"
  by (simp add: goResume_def view_open_def mark_at_def)

lemma view_open_goBufferStart: "view_open s \<Longrightarrow> view_open (snd (goBufferStart x s))"
  by (simp add: goBufferStart_def view_open_def mark_at_def isRequested_active)

lemma view_open_goBufferEnd: "view_open s \<Longrightarrow> view_open (snd (goBufferEnd s))"
  by (auto simp: goBufferEnd_def view_open_def)

lemma view_open_goSeekStart: "view_open s \<Longrightarrow> view_open (snd (goSeekStart x s))"
  by (simp add: goSeekStart_def view_open_def mark_at_def isRequested_active)

lemma view_open_goSeekEnd: "view_open s \<Longrightarrow> view_open (snd (goSeekEnd x s))"
  by (auto simp: goSeekEnd_def view_open_def mark_at_def)

lemma view_open_goAdBreak:
  "view_open s \<Longrightarrow> view_open (snd (goAdBreakStart x s))"
  "view_open s \<Longrightarrow> view_open (snd (goAdBreakEnd s))"
  by (simp_all add: goAdBreakStart_def goAdBreakEnd_def view_open_def mark_at_def)

lemma view_open_side:
  "view_open s \<Longrightarrow> view_open (goAdQuartile x s)"
  "view_open s \<Longrightarrow> view_open (goDownload s)"
  "view_open s \<Longrightarrow> view_open (goError s)"
  "view_open s \<Longrightarrow> view_open (goRenditionChange x s)"
  "view_open s \<Longrightarrow> view_open (goHeartbeat x s)"
  "view_open s \<Longrightarrow> view_open (goLastAd x s)"
  by (simp_all add: goAdQuartile_def goDownload_def goError_def goRenditionChange_def
        goHeartbeat_def goLastAd_def)

lemmas view_open_go [simp] =
  view_open_goPlayerReady view_open_goRequest view_open_goStart view_open_goPause
  view_open_goResume view_open_goBufferStart view_open_goBufferEnd view_open_goSeekStart
  view_open_goSeekEnd view_open_goAdBreak view_open_side

lemma view_open_fields [simp]:
  "view_open (s\<lparr>isPlaying := b\<rparr>) = view_open s"
  "view_open (s\<lparr>totalPlaytime := i\<rparr>) = view_open s"
  "view_open (s\<lparr>totalAdPlaytime := i\<rparr>) = view_open s"
  "view_open (s\<lparr>initialBufferingHappened := b\<rparr>) = view_open s"
  by (simp_all add: view_open_def)

lemma view_open_after_goRequest: "fst (goRequest x s) \<Longrightarrow> view_open (snd (goRequest x s))"
  by (auto simp: goRequest_def view_open_def split: if_splits)

lemma view_open_rejects: "view_open s \<Longrightarrow> goRequest x s = (False, s)"
  using view_open_active[of s] by (auto simp: goRequest_def)

lemma state_of_upd_tracker_keep [simp]:
  "(\<And>v. state (f v) = state v) \<Longrightarrow> state_of (upd_tracker t f w) = state_of w"
  by (auto simp: state_of_def fun_eq_iff)

lemma setAdsTracker_frame:
  assumes "setAdsTracker n t a w = Some w'"
  shows "state_of w' u = state_of w u \<or> state_of w' u = state_setIsAd True (state_of w u)"
    and "now w' = now w" and "sink w' = sink w"
    and "lastBufferType (trackers w' u) = lastBufferType (trackers w u)"
proof -
  from assms obtain w1 where d: "disposeAdsTracker n t w = Some w1"
    by (auto simp: setAdsTracker_def split: option.splits)
  from dispose_frame(2)[OF d] have f1: "sink w1 = sink w" and f2: "now w1 = now w"
    and f3: "state_of w1 u = state_of w u"
    and f4: "lastBufferType (trackers w1 u) = lastBufferType (trackers w u)"
    by simp_all
  show "state_of w' u = state_of w u \<or> state_of w' u = state_setIsAd True (state_of w u)"
  proof (cases a)
    case None
    with assms d f3 show ?thesis by (simp add: setAdsTracker_def)
  next
    case (Some x)
    with assms d have "w' = on_all x (FunnelAdEvents (Some t))
          (upd_tracker x (\<lambda>v. v\<lparr>parentTracker := Some t\<rparr>)
            (setIsAd x True (upd_tracker t (\<lambda>v. v\<lparr>adsTracker := Some x\<rparr>) w1)))"
      by (simp add: setAdsTracker_def Let_def)
    with f3 show ?thesis by (auto simp: setIsAd_def)
  qed
  show "now w' = now w"
  proof (cases a)
    case None
    with assms d f2 show ?thesis by (simp add: setAdsTracker_def)
  next
    case (Some x)
    with assms d have "w' = on_all x (FunnelAdEvents (Some t))
          (upd_tracker x (\<lambda>v. v\<lparr>parentTracker := Some t\<rparr>)
            (setIsAd x True (upd_tracker t (\<lambda>v. v\<lparr>adsTracker := Some x\<rparr>) w1)))"
      by (simp add: setAdsTracker_def Let_def)
    with f2 show ?thesis by (simp add: setIsAd_def)
  qed
  show "sink w' = sink w"
  proof (cases a)
    case None
    with assms d f1 show ?thesis by (simp add: setAdsTracker_def)
  next
    case (Some x)
    with assms d have "w' = on_all x (FunnelAdEvents (Some t))
          (upd_tracker x (\<lambda>v. v\<lparr>parentTracker := Some t\<rparr>)
            (setIsAd x True (upd_tracker t (\<lambda>v. v\<lparr>adsTracker := Some x\<rparr>) w1)))"
      by (simp add: setAdsTracker_def Let_def)
    with f1 show ?thesis by (simp add: setIsAd_def)
  qed
  show "lastBufferType (trackers w' u) = lastBufferType (trackers w u)"
  proof (cases a)
    case None
    with assms d f4 show ?thesis by (simp add: setAdsTracker_def)
  next
    case (Some x)
    with assms d have "w' = on_all x (FunnelAdEvents (Some t))
          (upd_tracker x (\<lambda>v. v\<lparr>parentTracker := Some t\<rparr>)
            (setIsAd x True (upd_tracker t (\<lambda>v. v\<lparr>adsTracker := Some x\<rparr>) w1)))"
      by (simp add: setAdsTracker_def Let_def)
    with f4 show ?thesis by (auto simp: setIsAd_def)
  qed
qed

lemma exec_view_open:
  assumes "exec n c w = Some w'" and "\<not> is_sendEnd t c" and "view_open (state_of w t)"
  shows "view_open (state_of w' t)"
proof (cases c)
  case (Tick d)
  with assms show ?thesis by (auto simp: tick_def state_of_def)
next
  case (SetRenditionBitrate u b)
  with assms show ?thesis by auto
next
  case (SetIsAd u b)
  with assms show ?thesis by (auto simp: setIsAd_def)
next
  case (SetAdsTracker u a)
  with assms setAdsTracker_frame(1)[of n u a w w' t] show ?thesis by auto
next
  case (Dispose u)
  with assms dispose_frame(1)[of n u w w'] show ?thesis by auto
next
  case (GetRenditionShift u b)
  with assms show ?thesis by (auto simp: getRenditionShift_frame)
next
  case (SendPlayerReady u att)
  with assms show ?thesis
    by (auto simp: sendPlayerReady_def Let_def split_def send_emit_char(1) getRenditionShift_frame
          split: if_splits option.splits)
next
  case (SendRequest u att)
  with assms show ?thesis
    by (auto simp: sendRequest_def Let_def split_def send_emit_char(1) getRenditionShift_frame
          split: if_splits option.splits)
next
  case (SendStart u att)
  with assms show ?thesis
    by (auto simp: sendStart_def Let_def split_def send_emit_char(1) getRenditionShift_frame
          split: if_splits option.splits)
next
  case (SendEnd u att)
  with assms have "u \<noteq> t" by simp
  with SendEnd assms show ?thesis
    by (auto simp: sendEnd_def Let_def split_def send_emit_char(1)
          split: if_splits option.splits)
next
  case (SendPause u att)
  with assms show ?thesis
    by (auto simp: sendPause_def Let_def split_def send_emit_char(1) getRenditionShift_frame
          split: if_splits option.splits)
next
  case (SendResume u att)
  with assms show ?thesis
    by (auto simp: sendResume_def Let_def split_def send_emit_char(1) getRenditionShift_frame
          split: if_splits option.splits)
next
  case (SendBufferStart u att)
  with assms show ?thesis
    by (auto simp: sendBufferStart_def Let_def split_def send_emit_char(1) getRenditionShift_frame
          split: if_splits option.splits)
next
  case (SendBufferEnd u att)
  with assms show ?thesis
    by (auto simp: sendBufferEnd_def Let_def split_def send_emit_char(1) getRenditionShift_frame
          split: if_splits option.splits)
next
  case (SendSeekStart u att)
  with assms show ?thesis
    by (auto simp: sendSeekStart_def Let_def split_def send_emit_char(1) getRenditionShift_frame
          split: if_splits option.splits)
next
  case (SendSeekEnd u att)
  with assms show ?thesis
    by (auto simp: sendSeekEnd_def Let_def split_def send_emit_char(1) getRenditionShift_frame
          split: if_splits option.splits)
next
  case (SendDownload u att)
  with assms show ?thesis
    by (auto simp: sendDownload_def Let_def split_def send_emit_char(1) getRenditionShift_frame
          split: if_splits option.splits)
next
  case (SendError u att)
  with assms show ?thesis
    by (auto simp: sendError_def Let_def split_def send_emit_char(1) getRenditionShift_frame
          split: if_splits option.splits)
next
  case (SendRenditionChanged u att)
  with assms show ?thesis
    by (auto simp: sendRenditionChanged_def Let_def split_def send_emit_char(1) getRenditionShift_frame
          split: if_splits option.splits)
next
  case (SendHeartbeat u att)
  with assms show ?thesis
    by (auto simp: sendHeartbeat_def Let_def split_def send_emit_char(1) getRenditionShift_frame
          split: if_splits option.splits)
next
  case (SendAdBreakStart u att)
  with assms show ?thesis
    by (auto simp: sendAdBreakStart_def Let_def split_def send_emit_char(1) getRenditionShift_frame
          split: if_splits option.splits)
next
  case (SendAdBreakEnd u att)
  with assms show ?thesis
    by (auto simp: sendAdBreakEnd_def Let_def split_def send_emit_char(1) getRenditionShift_frame
          split: if_splits option.splits)
next
  case (SendAdQuartile u att)
  with assms show ?thesis
    by (auto simp: sendAdQuartile_def Let_def split_def send_emit_char(1) getRenditionShift_frame
          split: if_splits option.splits)
next
  case (SendAdClick u att)
  with assms show ?thesis
    by (auto simp: sendAdClick_def Let_def split_def send_emit_char(1) getRenditionShift_frame
          split: if_splits option.splits)
qed

lemma run_view_open:
  "run n cs w = Some w' \<Longrightarrow> no_sendEnd t cs \<Longrightarrow> view_open (state_of w t) \<Longrightarrow>
     view_open (state_of w' t)"
proof (induction cs arbitrary: w)
  case Nil
  then show ?case by simp
next
  case (Cons c cs)
  from Cons.prems(1) obtain w1 where e: "exec n c w = Some w1" and r: "run n cs w1 = Some w'"
    by (auto split: option.splits)
  from Cons.prems(2) have nc: "\<not> is_sendEnd t c" and ncs: "no_sendEnd t cs"
    by (simp_all add: no_sendEnd_def)
  from exec_view_open[OF e nc Cons.prems(3)] have "view_open (state_of w1 t)" .
  from Cons.IH[OF r ncs this] show ?case .
qed


section \<open>Only an accepted sendBufferStart changes the cached buffer type\<close>

lemma lastBufferType_keep [simp]:
  "lastBufferType (trackers (upd_state p g w) u) = lastBufferType (trackers w u)"
  "lastBufferType (trackers (set_state p s w) u) = lastBufferType (trackers w u)"
  "lastBufferType (trackers (stopHeartbeat p w) u) = lastBufferType (trackers w u)"
  "lastBufferType (trackers (startHeartbeat p w) u) = lastBufferType (trackers w u)"
  "lastBufferType (trackers (tick d w) u) = lastBufferType (trackers w u)"
  "lastBufferType (trackers (setIsAd p b w) u) = lastBufferType (trackers w u)"
  by (simp_all add: stopHeartbeat_def startHeartbeat_def tick_def setIsAd_def)

lemma exec_lastBufferType:
  assumes "exec n c w = Some w'" and "\<not> accepted_bufferStart t c w"
  shows "lastBufferType (trackers w' t) = lastBufferType (trackers w t)"
proof (cases c)
  case (Tick d)
  with assms show ?thesis by auto
next
  case (SetRenditionBitrate u b)
  with assms show ?thesis by auto
next
  case (SetIsAd u b)
  with assms show ?thesis by auto
next
  case (SetAdsTracker u a)
  with assms setAdsTracker_frame(4)[of n u a w w' t] show ?thesis by auto
next
  case (Dispose u)
  with assms dispose_frame(1)[of n u w w'] show ?thesis by auto
next
  case (GetRenditionShift u b)
  with assms show ?thesis by (auto simp: getRenditionShift_frame)
next
  case (SendPlayerReady u att)
  with assms show ?thesis
    by (auto simp: sendPlayerReady_def Let_def split_def send_emit_char(1) getRenditionShift_frame
          split: if_splits option.splits)
next
  case (SendRequest u att)
  with assms show ?thesis
    by (auto simp: sendRequest_def Let_def split_def send_emit_char(1) getRenditionShift_frame
          split: if_splits option.splits)
next
  case (SendStart u att)
  with assms show ?thesis
    by (auto simp: sendStart_def Let_def split_def send_emit_char(1) getRenditionShift_frame
          split: if_splits option.splits)
next
  case (SendEnd u att)
  with assms show ?thesis
    by (auto simp: sendEnd_def Let_def split_def send_emit_char(1) getRenditionShift_frame
          split: if_splits option.splits)
next
  case (SendPause u att)
  with assms show ?thesis
    by (auto simp: sendPause_def Let_def split_def send_emit_char(1) getRenditionShift_frame
          split: if_splits option.splits)
next
  case (SendResume u att)
  with assms show ?thesis
    by (auto simp: sendResume_def Let_def split_def send_emit_char(1) getRenditionShift_frame
          split: if_splits option.splits)
next
  case (SendBufferStart u att)
  with assms show ?thesis
    by (auto simp: sendBufferStart_def Let_def split_def send_emit_char(1) getRenditionShift_frame
          split: if_splits option.splits)
next
  case (SendBufferEnd u att)
  with assms show ?thesis
    by (auto simp: sendBufferEnd_def Let_def split_def send_emit_char(1) getRenditionShift_frame
          split: if_splits option.splits)
next
  case (SendSeekStart u att)
  with assms show ?thesis
    by (auto simp: sendSeekStart_def Let_def split_def send_emit_char(1) getRenditionShift_frame
          split: if_splits option.splits)
next
  case (SendSeekEnd u att)
  with assms show ?thesis
    by (auto simp: sendSeekEnd_def Let_def split_def send_emit_char(1) getRenditionShift_frame
          split: if_splits option.splits)
next
  case (SendDownload u att)
  with assms show ?thesis
    by (auto simp: sendDownload_def Let_def split_def send_emit_char(1) getRenditionShift_frame
          split: if_splits option.splits)
next
  case (SendError u att)
  with assms show ?thesis
    by (auto simp: sendError_def Let_def split_def send_emit_char(1) getRenditionShift_frame
          split: if_splits option.splits)
next
  case (SendRenditionChanged u att)
  with assms show ?thesis
    by (auto simp: sendRenditionChanged_def Let_def split_def send_emit_char(1) getRenditionShift_frame
          split: if_splits option.splits)
next
  case (SendHeartbeat u att)
  with assms show ?thesis
    by (auto simp: sendHeartbeat_def Let_def split_def send_emit_char(1) getRenditionShift_frame
          split: if_splits option.splits)
next
  case (SendAdBreakStart u att)
  with assms show ?thesis
    by (auto simp: sendAdBreakStart_def Let_def split_def send_emit_char(1) getRenditionShift_frame
          split: if_splits option.splits)
next
  case (SendAdBreakEnd u att)
  with assms show ?thesis
    by (auto simp: sendAdBreakEnd_def Let_def split_def send_emit_char(1) getRenditionShift_frame
          split: if_splits option.splits)
next
  case (SendAdQuartile u att)
  with assms show ?thesis
    by (auto simp: sendAdQuartile_def Let_def split_def send_emit_char(1) getRenditionShift_frame
          split: if_splits option.splits)
next
  case (SendAdClick u att)
  with assms show ?thesis
    by (auto simp: sendAdClick_def Let_def split_def send_emit_char(1) getRenditionShift_frame
          split: if_splits option.splits)
qed

lemma run_lastBufferType:
  "run n cs w = Some w' \<Longrightarrow> no_accepted_bufferStart n t cs w \<Longrightarrow>
     lastBufferType (trackers w' t) = lastBufferType (trackers w t)"
proof (induction cs arbitrary: w)
  case Nil
  then show ?case by simp
next
  case (Cons c cs)
  from Cons.prems(1) obtain w1 where e: "exec n c w = Some w1" and r: "run n cs w1 = Some w'"
    by (auto split: option.splits)
  from Cons.prems(2) e have nc: "\<not> accepted_bufferStart t c w"
    and ncs: "no_accepted_bufferStart n t cs w1"
    by simp_all
  from exec_lastBufferType[OF e nc] Cons.IH[OF r ncs] show ?case by simp
qed


section \<open>What the guarded operations do when the guard accepts\<close>

lemma delivered_deliver_all [simp]:
  "delivered w (deliver_all ts ev att w') = drop (length (sink w)) (sink w' @ map (\<lambda>p. (p, ev, att)) ts)"
  by (simp add: delivered_def)

lemma state_isAd_go [simp]:
  "state_isAd (snd (goPlayerReady s)) = state_isAd s"
  "state_isAd (snd (goRequest x s)) = state_isAd s"
  "state_isAd (snd (goStart x s)) = state_isAd s"
  "state_isAd (snd (goEnd s)) = state_isAd s"
  "state_isAd (snd (goPause x s)) = state_isAd s"
  "state_isAd (snd (goResume x s)) = state_isAd s"
  "state_isAd (snd (goBufferStart x s)) = state_isAd s"
  "state_isAd (snd (goBufferEnd s)) = state_isAd s"
  "state_isAd (snd (goSeekStart x s)) = state_isAd s"
  "state_isAd (snd (goSeekEnd x s)) = state_isAd s"
  "state_isAd (snd (goAdBreakStart x s)) = state_isAd s"
  "state_isAd (snd (goAdBreakEnd s)) = state_isAd s"
  by (simp_all add: state_isAd_def goPlayerReady_def goRequest_def goStart_def goEnd_def
        goPause_def goResume_def goBufferStart_def goBufferEnd_def goSeekStart_def
        goSeekEnd_def goAdBreakStart_def goAdBreakEnd_def mark_at_def goViewCountUp_def)

lemma sendRequest_accepted:
  assumes acc: "fst (goRequest (now w) (state_of w t))"
      and ts: "send_targets n (listeners_of w) t = Some ts"
  shows "sendRequest n t a1 w =
           Some (upd_state t (goHeartbeat (now w))
                  (startHeartbeat t (deliver_all ts (request_event w t) a1
                     (set_state t (snd (goRequest (now w) (state_of w t))) w))))"
  using assms
  by (simp add: sendRequest_def Let_def split_def send_emit_char(1) request_event_def
        isAd_def state_isAd_def goRequest_def mark_at_def goViewCountUp_def split: if_splits)

lemma sendRequest_rejected:
  "view_open (state_of w t) \<Longrightarrow> sendRequest n t a w = Some w"
  by (simp add: sendRequest_def Let_def view_open_rejects)

lemma built_at_start_bufferType:
  assumes acc: "fst (goBufferStart (now w) (state_of w t))"
  shows "built_at_start w t att ''bufferType'' = Some (JStr (bufferType_at_start w t att))"
proof -
  from acc have g: "isRequested (state_of w t)" "phase (state_of w t) \<noteq> BUFFERING"
    by (simp_all add: goBufferStart_def split: if_splits)
  then show ?thesis
    by (simp add: built_at_start_def buildBufferAttributes_def Let_def goBufferStart_def
        bufferType_at_start_def calculateBufferType_def seekOpen_def mark_at_def)
qed

lemma sendBufferStart_accepted:
  assumes acc: "fst (goBufferStart (now w) (state_of w t))"
      and ts: "send_targets n (listeners_of w) t = Some ts"
  shows "sendBufferStart n t att w =
           Some (deliver_all ts (buffer_start_event w t) (Some (built_at_start w t att))
                  (upd_tracker t (\<lambda>v. v\<lparr>lastBufferType := JStr (bufferType_at_start w t att)\<rparr>)
                     (set_state t (snd (goBufferStart (now w) (state_of w t))) w)))"
proof -
  from acc have g: "isRequested (state_of w t)" "phase (state_of w t) \<noteq> BUFFERING"
    by (simp_all add: goBufferStart_def split: if_splits)
  from built_at_start_bufferType[OF acc, of att]
  have b: "att_get (built_at_start w t att) ''bufferType'' = JStr (bufferType_at_start w t att)"
    by (simp add: att_get_def)
  show ?thesis
    using acc ts b
    by (simp add: sendBufferStart_def Let_def split_def send_emit_char(1) isAd_def
        buffer_start_event_def built_at_start_def)
qed

lemma sendBufferEnd_accepted:
  assumes acc: "fst (goBufferEnd (state_of w t))"
      and ts: "send_targets n (listeners_of w) t = Some ts"
  shows "sendBufferEnd n t att w =
           Some (upd_state t (\<lambda>s. s\<lparr>initialBufferingHappened := True\<rparr>)
                  (deliver_all ts (buffer_end_event w t) (Some (built_at_end w t att))
                     (set_state t (snd (goBufferEnd (state_of w t))) w)))"
  using acc ts
  by (simp add: sendBufferEnd_def Let_def split_def send_emit_char(1) buffer_end_event_def
      built_at_end_def isAd_def)


section \<open>Facts about the example worlds\<close>

lemma after_Some: "\<not> Option.is_none r \<Longrightarrow> r = Some (after r)"
  by (cases r) (simp_all add: after_def)

lemma clock_ok_W0: "clock_ok W0"
  by (simp add: W0_def clock_ok_World_new)

lemma listeners_of_W0 [simp]: "listeners_of W0 = (\<lambda>t. [])"
  by (simp add: fun_eq_iff)

lemma W0_accepts_request: "fst (goRequest (now W0) (state_of W0 0))"
  by (simp add: goRequest_def TrackerState_new_def)

lemma W0_targets: "send_targets 1 (listeners_of W0) 0 = Some [0]"
  by simp

lemma W_requested_eq: "sendRequest 1 0 None W0 = Some W_requested"
  unfolding W_requested_def by (rule after_Some) code_simp

lemma W_later_eq:
  "run 1 [SendStart 0 None, Tick 10, SendPause 0 None] W_requested = Some W_later"
  unfolding W_later_def by (rule after_Some) code_simp

lemma W_playing70_facts:
  "\<not> isAd W_playing70 0"
  "fst (goEnd (state_of W_playing70 0))"
  "send_targets 1 (listeners_of W_playing70) 0 = Some [0]"
  "fst (goBufferStart (now W_playing70) (state_of W_playing70 0))"
  by code_simp+

lemma W_ads_eq: "setAdsTracker 1 0 (Some 1) W0 = Some W_ads"
  unfolding W_ads_def by (rule after_Some) code_simp

lemma W_ads_facts:
  "isAd W_ads 1"
  "parentTracker (trackers W_ads 1) = Some 0"
  "fst (goAdBreakStart (now W_ads) (state_of W_ads 1))"
  "send_targets 2 (listeners_of W_ads) 1 = Some [1, 0]"
  "parent_chain W_ads 1 [0] 0"
  by code_simp+

lemma W_adbreak_eq: "run 2 [SendAdBreakStart 1 None, Tick 30] W_ads = Some W_adbreak"
  unfolding W_adbreak_def by (rule after_Some) code_simp

lemma W_adbreak_facts:
  "isAd W_adbreak 1"
  "parentTracker (trackers W_adbreak 1) = Some 0"
  "fst (goAdBreakEnd (state_of W_adbreak 1))"
  "send_targets 2 (listeners_of W_adbreak) 1 = Some [1, 0]"
  by code_simp+

lemma clock_ok_W_adbreak: "clock_ok W_adbreak"
proof -
  have "clock_ok W_ads"
    by (rule setAdsTracker_clock_ok[OF W_ads_eq clock_ok_W0])
  then show ?thesis
    by (rule run_clock_ok[OF W_adbreak_eq])
qed

lemma W_rendition800_facts:
  "getRenditionBitrate W_rendition800 0 = Some 800"
  "role_last W_rendition800 0 = Some 500"
  by code_simp+

lemma W_buffering_eq: "sendBufferStart 1 0 None W_playing70 = Some W_buffering"
  unfolding W_buffering_def by (rule after_Some) code_simp

lemma W_buffering_later_eq:
  "run 1 [Tick 40, SendBufferStart 0 None, SendHeartbeat 0 None] W_buffering
     = Some W_buffering_later"
  unfolding W_buffering_later_def by (rule after_Some) code_simp

lemma W_buffering_later_facts:
  "no_accepted_bufferStart 1 0 [Tick 40, SendBufferStart 0 None, SendHeartbeat 0 None] W_buffering"
  "fst (goBufferEnd (state_of W_buffering_later 0))"
  "send_targets 1 (listeners_of W_buffering_later) 0 = Some [0]"
  by code_simp+


section \<open>The claims\<close>

subsection \<open>A duplicate request is suppressed\<close>

text \<open>
  C1. Take a \<open>sendRequest\<close> that the guard \<open>goRequest\<close> accepts, any calls after it
  among which there is no \<open>sendEnd\<close> on the same tracker, and then a second
  \<open>sendRequest\<close> on it. The first call returns and delivers one request event
  (\<open>AD_REQUEST\<close> or \<open>CONTENT_REQUEST\<close>, by the role) with the attributes it was given:
  once for the tracker itself, and once for each tracker the event is funnelled to. The
  second call's guard rejects: it returns the world it was called in, so nothing is
  delivered and no side effect is performed. Together the two calls emit exactly one
  request event.
\<close>

theorem sendRequest_duplicate_suppressed:
  assumes acc: "fst (goRequest (now w) (state_of w t))"
      and ts: "send_targets n (listeners_of w) t = Some ts"
      and cs: "no_sendEnd t cs"
  shows "\<exists>w1. sendRequest n t a1 w = Some w1
           \<and> delivered w w1 = map (\<lambda>q. (q, request_event w t, a1)) ts
           \<and> delivered_for t w w1 = [(request_event w t, a1)]
           \<and> (\<forall>w2. run n cs w1 = Some w2 \<longrightarrow> sendRequest n t a2 w2 = Some w2)"
proof -
  let ?w1 = "upd_state t (goHeartbeat (now w))
                  (startHeartbeat t (deliver_all ts (request_event w t) a1
                     (set_state t (snd (goRequest (now w) (state_of w t))) w)))"
  have r1: "sendRequest n t a1 w = Some ?w1"
    by (rule sendRequest_accepted[OF acc ts])
  have d: "delivered w ?w1 = map (\<lambda>q. (q, request_event w t, a1)) ts"
    by (simp add: delivered_def)
  from send_targets_acyclic[OF ts] obtain xs where xs: "ts = t # xs" "t \<notin> set xs" by blast
  then have f: "filter (\<lambda>e. fst e = t) (map (\<lambda>q. (q, request_event w t, a1)) ts)
                  = [(t, request_event w t, a1)]"
    by (auto simp: filter_empty_conv)
  have df: "delivered_for t w ?w1 = [(request_event w t, a1)]"
    by (simp add: delivered_for_def d f)
  have vo: "view_open (state_of ?w1 t)"
    by (simp add: view_open_after_goRequest[OF acc])
  have "sendRequest n t a2 w2 = Some w2" if "run n cs ?w1 = Some w2" for w2
    using run_view_open[OF that cs vo] by (rule sendRequest_rejected)
  with r1 d df show ?thesis by blast
qed

theorem sendRequest_duplicate_suppressed_witness:
  "sendRequest 1 0 None W0 = Some W_requested
   \<and> delivered_for 0 W0 W_requested = [(''CONTENT_REQUEST'', None)]
   \<and> run 1 [SendStart 0 None, Tick 10, SendPause 0 None] W_requested = Some W_later
   \<and> sendRequest 1 0 (Some Map.empty) W_later = Some W_later"
proof -
  have cs: "no_sendEnd 0 [SendStart 0 None, Tick 10, SendPause 0 None]"
    by (simp add: no_sendEnd_def)
  from sendRequest_duplicate_suppressed [OF W0_accepts_request W0_targets cs, of None "Some Map.empty"]
  show ?thesis
    using W_requested_eq W_later_eq by (auto simp: request_event_def)
qed


subsection \<open>sendEnd on content\<close>

text \<open>
  C2. On a tracker that is not an ad tracker and whose state accepts \<open>goEnd\<close>,
  \<open>sendEnd\<close> returns, delivers \<open>CONTENT_END\<close>, and leaves the tracker's state as
  \<open>goViewCountUp\<close> of the state after \<open>goEnd\<close> with \<open>totalPlaytime\<close> set to 0:
  the view id is a new one and \<open>totalPlaytime\<close> is 0.
\<close>

theorem sendEnd_content_new_view:
  assumes ad: "\<not> isAd w t" and ok: "fst (goEnd (state_of w t))"
      and ts: "send_targets n (listeners_of w) t = Some ts"
  shows "\<exists>w' b. sendEnd n t att w = Some w'
           \<and> delivered w w' = map (\<lambda>q. (q, ''CONTENT_END'', Some b)) ts
           \<and> state_of w' t = (goViewCountUp (snd (goEnd (state_of w t))))\<lparr>totalPlaytime := 0\<rparr>
           \<and> state_getViewId (state_of w' t) \<noteq> state_getViewId (state_of w t)
           \<and> totalPlaytime (state_of w' t) = 0"
proof -
  from ok have req: "isRequested (state_of w t)"
    by (simp add: goEnd_def split: if_splits)
  show ?thesis
    using ad ts req
    by (simp add: sendEnd_def Let_def split_def send_emit_char(1) goEnd_def isAd_def
        state_isAd_def state_getViewId_def goViewCountUp_def delivered_def
        split: option.splits)
qed

theorem sendEnd_content_new_view_witness:
  "\<exists>w' b. sendEnd 1 0 None W_playing70 = Some w'
     \<and> delivered W_playing70 w' = [(0, ''CONTENT_END'', Some b)]
     \<and> state_getViewId (state_of w' 0) \<noteq> state_getViewId (state_of W_playing70 0)
     \<and> totalPlaytime (state_of w' 0) = 0"
  using sendEnd_content_new_view [OF W_playing70_facts(1) W_playing70_facts(2) W_playing70_facts(3), of None]
  by auto


subsection \<open>Ad breaks\<close>

text \<open>
  C3. On an ad tracker with a parent: when \<open>goAdBreakStart\<close> accepts,
  \<open>sendAdBreakStart\<close> returns, the tracker's \<open>totalAdPlaytime\<close> is 0, the parent's
  \<open>isPlaying\<close> flag is false, and \<open>AD_BREAK_START\<close> is delivered with the attributes
  of the call. When \<open>goAdBreakEnd\<close> accepts, \<open>sendAdBreakEnd\<close> returns, the parent's
  \<open>isPlaying\<close> flag is true, and the delivered \<open>AD_BREAK_END\<close> carries a
  \<open>timeSinceAdBreakBegin\<close> that is at least 0 (no Chrono being marked in the future).
\<close>

theorem adBreak_start_and_end:
  "(isAd w c \<and> parentTracker (trackers w c) = Some p
      \<and> fst (goAdBreakStart (now w) (state_of w c))
      \<and> send_targets n (listeners_of w) c = Some ts \<longrightarrow>
      (\<exists>w'. sendAdBreakStart n c att w = Some w'
         \<and> totalAdPlaytime (state_of w' c) = 0
         \<and> isPlaying (state_of w' p) = False
         \<and> delivered w w' = map (\<lambda>q. (q, ''AD_BREAK_START'', att)) ts))
   \<and> (isAd v c \<and> parentTracker (trackers v c) = Some p \<and> fst (goAdBreakEnd (state_of v c))
      \<and> send_targets n (listeners_of v) c = Some ts \<and> clock_ok v \<longrightarrow>
      (\<exists>v' b d. sendAdBreakEnd n c att v = Some v'
         \<and> isPlaying (state_of v' p) = True
         \<and> delivered v v' = map (\<lambda>q. (q, ''AD_BREAK_END'', Some b)) ts
         \<and> b ''timeSinceAdBreakBegin'' = Some (JNum d) \<and> 0 \<le> d))"
  apply (intro conjI impI)
   apply (clarsimp simp: sendAdBreakStart_def Let_def split_def goAdBreakStart_def isAd_def
      state_isAd_def mark_at_def send_emit_char(1) delivered_def split: if_splits)
  apply (clarsimp simp: sendAdBreakEnd_def Let_def split_def goAdBreakEnd_def isAd_def
      state_isAd_def goLastAd_def mark_at_def send_emit_char(1) clock_ok_def getDeltaTime_def
      timeSinceAdBreakStart_def delivered_def split: if_splits)
  apply (auto simp: goLastAd_def mark_at_def split: option.splits)
  done

theorem adBreak_start_and_end_witness:
  "(\<exists>w'. sendAdBreakStart 2 1 None W_ads = Some w'
      \<and> totalAdPlaytime (state_of w' 1) = 0
      \<and> isPlaying (state_of w' 0) = False
      \<and> delivered W_ads w' = [(1, ''AD_BREAK_START'', None), (0, ''AD_BREAK_START'', None)])
   \<and> (\<exists>v' b d. sendAdBreakEnd 2 1 None W_adbreak = Some v'
      \<and> isPlaying (state_of v' 0) = True
      \<and> delivered W_adbreak v' = [(1, ''AD_BREAK_END'', Some b), (0, ''AD_BREAK_END'', Some b)]
      \<and> b ''timeSinceAdBreakBegin'' = Some (JNum d) \<and> 0 \<le> d)"
  using adBreak_start_and_end [of W_ads 1 0 2 "[1, 0]" None W_adbreak] W_ads_facts W_adbreak_facts
    clock_ok_W_adbreak
  by simp


subsection \<open>The rendition shift\<close>

text \<open>
  C4 (as amended). \<open>getRenditionShift\<close> compares the current rendition bitrate with the
  baseline of the tracker's role. When both are present and not 0 it returns \<open>up\<close> if the
  current one is greater, \<open>down\<close> if it is smaller, and null if they are equal. When
  either is absent or 0 it returns null. With \<open>saveNewRendition\<close> true the current
  bitrate becomes the baseline of that role, otherwise the baseline stays; the other
  role's baseline and the current bitrate are never changed.
\<close>

theorem getRenditionShift_by_role:
  "(getRenditionBitrate w t = Some c \<and> role_last w t = Some l \<and> c \<noteq> 0 \<and> l \<noteq> 0 \<longrightarrow>
      fst (getRenditionShift save t w) =
        (if c > l then JStr ''up'' else if c < l then JStr ''down'' else JNull))
   \<and> (getRenditionBitrate w t \<in> {None, Some 0} \<or> role_last w t \<in> {None, Some 0} \<longrightarrow>
      fst (getRenditionShift save t w) = JNull)
   \<and> role_last (snd (getRenditionShift save t w)) t =
        (if save then getRenditionBitrate w t else role_last w t)
   \<and> other_last (snd (getRenditionShift save t w)) t = other_last w t
   \<and> getRenditionBitrate (snd (getRenditionShift save t w)) t = getRenditionBitrate w t"
  by (auto simp: getRenditionShift_def Let_def role_last_def other_last_def falsy_num_def
        getRenditionBitrate_def split: option.splits)


text \<open>
  The example of the claim: baseline 500 and current bitrate 800 give \<open>up\<close> and save
  800; the next call, still at 800, gives null; a call at 300 gives \<open>down\<close>.
\<close>

theorem getRenditionShift_by_role_witness:
  "getRenditionBitrate W_rendition800 0 = Some 800 \<and> role_last W_rendition800 0 = Some 500
   \<and> fst (getRenditionShift True 0 W_rendition800) = JStr ''up''
   \<and> role_last (snd (getRenditionShift True 0 W_rendition800)) 0 = Some 800
   \<and> fst (getRenditionShift True 0 (snd (getRenditionShift True 0 W_rendition800))) = JNull
   \<and> fst (getRenditionShift True 0
             (upd_tracker 0 (\<lambda>v. v\<lparr>renditionBitrate := Some 300\<rparr>)
                (snd (getRenditionShift True 0 W_rendition800)))) = JStr ''down''"
proof -
  let ?w1 = "snd (getRenditionShift True 0 W_rendition800)"
  let ?w2 = "upd_tracker 0 (\<lambda>v. v\<lparr>renditionBitrate := Some 300\<rparr>) ?w1"
  note a = getRenditionShift_by_role [of W_rendition800 0 800 500 True]
  from a W_rendition800_facts
  have up: "fst (getRenditionShift True 0 W_rendition800) = JStr ''up''"
    and l1: "role_last ?w1 0 = Some 800"
    and c1: "getRenditionBitrate ?w1 0 = Some 800"
    by simp_all
  from getRenditionShift_by_role [of ?w1 0 800 800 True] l1 c1
  have same: "fst (getRenditionShift True 0 ?w1) = JNull" by simp
  have c2: "getRenditionBitrate ?w2 0 = Some 300"
    by (simp add: getRenditionBitrate_def)
  have l2: "role_last ?w2 0 = Some 800"
    using l1 by (auto simp: role_last_def split: if_splits)
  from getRenditionShift_by_role [of ?w2 0 300 800 True] l2 c2
  have down: "fst (getRenditionShift True 0 ?w2) = JStr ''down''" by simp
  from up l1 same down W_rendition800_facts show ?thesis by simp
qed


text \<open>
  C4 as stated fails where a bitrate is 0: with the baseline 500 and the current bitrate
  0 the current one is smaller, the specification's wording gives \<open>down\<close>, and the
  method returns null, since \<open>!current\<close> holds for 0.
\<close>

theorem getRenditionShift_by_role_counterexample:
  "getRenditionBitrate W_rendition0 0 = Some 0 \<and> role_last W_rendition0 0 = Some 500
   \<and> fst (getRenditionShift True 0 W_rendition0) = JNull
   \<and> claimed_shift (getRenditionBitrate W_rendition0 0) (role_last W_rendition0 0) = JStr ''down''
   \<and> fst (getRenditionShift True 0 W_rendition0)
        \<noteq> claimed_shift (getRenditionBitrate W_rendition0 0) (role_last W_rendition0 0)"
  by code_simp


subsection \<open>Funnelling the ads tracker's events\<close>




subsection \<open>The ad-only operations are gated by the role\<close>

text \<open>
  C6. On a tracker whose \<open>isAd\<close> flag is false, \<open>sendAdQuartile\<close> and \<open>sendAdClick\<close>
  return at once: no event is delivered, no warning is logged, and the world (every
  tracker's state included) is the one before the call.
\<close>

theorem ad_only_operations_gated:
  "\<not> isAd w t \<Longrightarrow> sendAdQuartile n t att w = Some w \<and> sendAdClick n t att w = Some w"
  by (simp add: sendAdQuartile_def sendAdClick_def)

theorem ad_only_operations_gated_witness:
  "\<not> isAd W0 0
   \<and> sendAdQuartile 1 0 (Some [''quartile'' \<mapsto> JNum 1]) W0 = Some W0
   \<and> sendAdClick 1 0 (Some [''quartile'' \<mapsto> JNum 1]) W0 = Some W0"
proof -
  have h: "\<not> isAd W0 0" by simp
  show ?thesis
    using h ad_only_operations_gated [OF h, of 1 "Some [''quartile'' \<mapsto> JNum 1]"] by simp
qed

subsection \<open>A missing field is a warning, not an error\<close>

text \<open>
  C7. \<open>sendDownload\<close> called without a \<open>state\<close> field, and on an ad tracker
  \<open>sendAdQuartile\<close> without a \<open>quartile\<close> field and \<open>sendAdClick\<close> without a
  \<open>url\<close> field: the call returns (no exception), the warning is logged, and the event
  is delivered with the attributes of the call (for the quartile, with
  \<open>timeSinceLastAdQuartile\<close> added); the missing field is still absent from them.
\<close>

theorem missing_field_warns_and_emits:
  "(att_or_empty att ''state'' = None \<and> send_targets n (listeners_of w) t = Some ts \<longrightarrow>
      (\<exists>w'. sendDownload n t att w = Some w'
         \<and> warnings w' = warnings w @ [''Called sendDownload without { state: xxxxx }.'']
         \<and> delivered w w' = map (\<lambda>q. (q, ''DOWNLOAD'', Some (att_or_empty att))) ts))
   \<and> (isAd w t \<and> att_or_empty att ''quartile'' = None
        \<and> send_targets n (listeners_of w) t = Some ts \<longrightarrow>
      (\<exists>w'. sendAdQuartile n t att w = Some w'
         \<and> warnings w' = warnings w @ [''Called sendAdQuartile without { quartile: xxxxx }.'']
         \<and> delivered w w' = map (\<lambda>q. (q, ''AD_QUARTILE'',
               Some ((att_or_empty att)(''timeSinceLastAdQuartile'' \<mapsto>
                  JNum (getDeltaTime (now w) (timeSinceLastAdQuartile (state_of w t))))))) ts
         \<and> ((att_or_empty att)(''timeSinceLastAdQuartile'' \<mapsto>
                  JNum (getDeltaTime (now w) (timeSinceLastAdQuartile (state_of w t)))))
               ''quartile'' = None))
   \<and> (isAd w t \<and> att_or_empty att ''url'' = None
        \<and> send_targets n (listeners_of w) t = Some ts \<longrightarrow>
      (\<exists>w'. sendAdClick n t att w = Some w'
         \<and> warnings w' = warnings w @ [''Called sendAdClick without { url: xxxxx }.'']
         \<and> delivered w w' = map (\<lambda>q. (q, ''AD_CLICK'', Some (att_or_empty att))) ts))"
  by (simp add: sendDownload_def sendAdQuartile_def sendAdClick_def Let_def att_get_def
        send_emit_char(1) delivered_def)

theorem missing_field_warns_and_emits_witness:
  "(\<exists>w'. sendDownload 2 1 None W_ads = Some w'
      \<and> warnings w' = warnings W_ads @ [''Called sendDownload without { state: xxxxx }.'']
      \<and> delivered W_ads w' = [(1, ''DOWNLOAD'', Some Map.empty), (0, ''DOWNLOAD'', Some Map.empty)])
   \<and> (\<exists>w'. sendAdQuartile 2 1 None W_ads = Some w'
      \<and> warnings w' = warnings W_ads @ [''Called sendAdQuartile without { quartile: xxxxx }.''])
   \<and> (\<exists>w'. sendAdClick 2 1 None W_ads = Some w'
      \<and> warnings w' = warnings W_ads @ [''Called sendAdClick without { url: xxxxx }.'']
      \<and> delivered W_ads w' = [(1, ''AD_CLICK'', Some Map.empty), (0, ''AD_CLICK'', Some Map.empty)])"
  using missing_field_warns_and_emits [of None 2 W_ads 1 "[1, 0]"] W_ads_facts
  by (auto simp: att_or_empty_def)


subsection \<open>The buffer type at sendBufferStart\<close>






subsection \<open>The buffer type at sendBufferEnd\<close>

text \<open>
  C9. Take an accepted \<open>sendBufferStart\<close>, any calls after it among which no
  \<open>sendBufferStart\<close> on the same tracker is accepted, and then an accepted
  \<open>sendBufferEnd\<close> on it. The \<open>sendBufferEnd\<close> returns, and the buffer type of the
  event it delivers is the buffer type that was delivered with the buffer start,
  whatever \<open>buildBufferAttributes\<close> computed again.
\<close>

theorem bufferType_cached_for_bufferEnd:
  assumes acc: "fst (goBufferStart (now w) (state_of w t))"
      and r1: "sendBufferStart n t att w = Some w1"
      and r2: "run n cs w1 = Some w2"
      and cs: "no_accepted_bufferStart n t cs w1"
      and acc2: "fst (goBufferEnd (state_of w2 t))"
      and ts2: "send_targets n (listeners_of w2) t = Some ts2"
  shows "\<exists>b1 rest w3 b2 x.
           delivered w w1 = (t, buffer_start_event w t, Some b1) # rest
           \<and> sendBufferEnd n t att2 w2 = Some w3
           \<and> delivered w2 w3 = map (\<lambda>q. (q, buffer_end_event w2 t, Some b2)) ts2
           \<and> b1 ''bufferType'' = Some (JStr x)
           \<and> b2 ''bufferType'' = Some (JStr x)"
proof -
  from acc r1 obtain ts where ts: "send_targets n (listeners_of w) t = Some ts"
    by (auto simp: sendBufferStart_def Let_def split_def send_emit_char(1) split: if_splits)
  from sendBufferStart_accepted[OF acc ts, of att] r1
  have w1: "w1 = deliver_all ts (buffer_start_event w t) (Some (built_at_start w t att))
                  (upd_tracker t (\<lambda>v. v\<lparr>lastBufferType := JStr (bufferType_at_start w t att)\<rparr>)
                     (set_state t (snd (goBufferStart (now w) (state_of w t))) w))"
    by simp
  from send_targets_hd[OF ts] obtain xs where xs: "ts = t # xs" by blast
  have d1: "delivered w w1 =
      (t, buffer_start_event w t, Some (built_at_start w t att))
        # map (\<lambda>q. (q, buffer_start_event w t, Some (built_at_start w t att))) xs"
    by (simp add: w1 xs delivered_def)
  have l1: "lastBufferType (trackers w1 t) = JStr (bufferType_at_start w t att)"
    by (simp add: w1)
  from run_lastBufferType[OF r2 cs] l1
  have l2: "lastBufferType (trackers w2 t) = JStr (bufferType_at_start w t att)" by simp
  from acc2 have ph: "phase (state_of w2 t) = BUFFERING"
    by (simp add: goBufferEnd_def split: if_splits)
  have l2': "lastBufferType (trackers (set_state t (snd (goBufferEnd (state_of w2 t))) w2) t)
               = JStr (bufferType_at_start w t att)"
    using l2 by simp
  let ?w3 = "upd_state t (\<lambda>s. s\<lparr>initialBufferingHappened := True\<rparr>)
                  (deliver_all ts2 (buffer_end_event w2 t) (Some (built_at_end w2 t att2))
                     (set_state t (snd (goBufferEnd (state_of w2 t))) w2))"
  have e: "sendBufferEnd n t att2 w2 = Some ?w3"
    by (rule sendBufferEnd_accepted[OF acc2 ts2])
  have d2: "delivered w2 ?w3 =
      map (\<lambda>q. (q, buffer_end_event w2 t, Some (built_at_end w2 t att2))) ts2"
    by (simp add: delivered_def)
  have b2: "built_at_end w2 t att2 ''bufferType'' = Some (JStr (bufferType_at_start w t att))"
    by (simp add: built_at_end_def Let_def l2)
  from e d2 b2 have "\<exists>w3 b2. sendBufferEnd n t att2 w2 = Some w3
           \<and> delivered w2 w3 = map (\<lambda>q. (q, buffer_end_event w2 t, Some b2)) ts2
           \<and> b2 ''bufferType'' = Some (JStr (bufferType_at_start w t att))"
    by blast
  with d1 built_at_start_bufferType[OF acc, of att] show ?thesis by blast
qed

theorem bufferType_cached_for_bufferEnd_witness:
  "\<exists>b1 w3 b2.
      delivered W_playing70 W_buffering = [(0, ''CONTENT_BUFFER_START'', Some b1)]
      \<and> sendBufferEnd 1 0 (Some [''timeSinceStarted'' \<mapsto> JNum 200]) W_buffering_later = Some w3
      \<and> delivered W_buffering_later w3 = [(0, ''CONTENT_BUFFER_END'', Some b2)]
      \<and> b1 ''bufferType'' = Some (JStr ''initial'')
      \<and> b2 ''bufferType'' = Some (JStr ''initial'')"
proof -
  have e1: "buffer_start_event W_playing70 0 = ''CONTENT_BUFFER_START''"
    and e2: "buffer_end_event W_buffering_later 0 = ''CONTENT_BUFFER_END''"
    by code_simp+
  from bufferType_cached_for_bufferEnd [OF W_playing70_facts(4) W_buffering_eq W_buffering_later_eq
      W_buffering_later_facts(1) W_buffering_later_facts(2) W_buffering_later_facts(3),
      of "Some [''timeSinceStarted'' \<mapsto> JNum 200]"]
  obtain b1 rest w3 b2 x where
    d1: "delivered W_playing70 W_buffering = (0, ''CONTENT_BUFFER_START'', Some b1) # rest"
    and r: "sendBufferEnd 1 0 (Some [''timeSinceStarted'' \<mapsto> JNum 200]) W_buffering_later = Some w3"
    and d2: "delivered W_buffering_later w3 = [(0, ''CONTENT_BUFFER_END'', Some b2)]"
    and x1: "b1 ''bufferType'' = Some (JStr x)" and x2: "b2 ''bufferType'' = Some (JStr x)"
    by (auto simp: e1 e2)
  have l: "length (delivered W_playing70 W_buffering) = 1"
    by code_simp
  with d1 have rest: "rest = []" by simp
  have "att_get (att_or_empty (snd (snd (hd (delivered W_playing70 W_buffering))))) ''bufferType''
          = JStr ''initial''"
    by code_simp
  with d1 x1 have "x = ''initial''" by (simp add: att_get_def att_or_empty_def)
  with d1 rest r d2 x1 x2 show ?thesis by blast
qed


subsection \<open>The view identity comes from the parent\<close>



end
